theory Spec2Isabelle
  imports Complex_Main "HOL-Library.Word"
begin

section \<open>The browser client: voice-activity segmenter and PCM encoding\<close>

subsection \<open>JavaScript numbers\<close>

text \<open>
  A JavaScript number is a finite value, one of the two infinities, or NaN. A finite
  value is the real number it denotes; the sign of zero is not modelled. The operations
  \<open>js_add\<close>, \<open>js_mul\<close>, \<open>js_div\<close> and \<open>Math_sqrt\<close> give the exact
  result on finite operands and follow ECMAScript on the special values; \<open>binary64\<close>
  rounds an exact result to the nearest double, as every arithmetic operation of the
  language does. In \<open>float32To16BitPCM\<close> the exact results are doubles already (a
  clamped 32-bit float times \<open>0x8000\<close> or \<open>0x7FFF\<close> fits a double), so no
  rounding is written there.
\<close>

datatype number = NaN | PosInf | NegInf | Fin real

text \<open>\<open>Math.min(a, b)\<close> and \<open>Math.max(a, b)\<close>: NaN if either argument is NaN.\<close>

fun Math_min :: "number \<Rightarrow> number \<Rightarrow> number" where
  "Math_min NaN b = NaN"
| "Math_min a NaN = NaN"
| "Math_min NegInf b = NegInf"
| "Math_min a NegInf = NegInf"
| "Math_min PosInf b = b"
| "Math_min a PosInf = a"
| "Math_min (Fin a) (Fin b) = Fin (min a b)"

fun Math_max :: "number \<Rightarrow> number \<Rightarrow> number" where
  "Math_max NaN b = NaN"
| "Math_max a NaN = NaN"
| "Math_max PosInf b = PosInf"
| "Math_max a PosInf = PosInf"
| "Math_max NegInf b = b"
| "Math_max a NegInf = a"
| "Math_max (Fin a) (Fin b) = Fin (max a b)"

text \<open>\<open>a < b\<close> and \<open>a > b\<close>: false whenever an operand is NaN.\<close>

fun js_lt :: "number \<Rightarrow> number \<Rightarrow> bool" where
  "js_lt NaN b = False"
| "js_lt a NaN = False"
| "js_lt a NegInf = False"
| "js_lt NegInf b = True"
| "js_lt PosInf b = False"
| "js_lt a PosInf = True"
| "js_lt (Fin a) (Fin b) = (a < b)"

definition js_gt :: "number \<Rightarrow> number \<Rightarrow> bool" where
  "js_gt a b = js_lt b a"

text \<open>The sign of an infinite product or quotient, from the sign of the finite operand.\<close>

definition signed_inf :: "bool \<Rightarrow> number" where
  "signed_inf negative = (if negative then NegInf else PosInf)"

fun js_mul :: "number \<Rightarrow> number \<Rightarrow> number" where
  "js_mul NaN b = NaN"
| "js_mul a NaN = NaN"
| "js_mul (Fin a) (Fin b) = Fin (a * b)"
| "js_mul (Fin a) PosInf = (if a = 0 then NaN else signed_inf (a < 0))"
| "js_mul (Fin a) NegInf = (if a = 0 then NaN else signed_inf (0 < a))"
| "js_mul PosInf (Fin b) = (if b = 0 then NaN else signed_inf (b < 0))"
| "js_mul NegInf (Fin b) = (if b = 0 then NaN else signed_inf (0 < b))"
| "js_mul PosInf PosInf = PosInf"
| "js_mul NegInf NegInf = PosInf"
| "js_mul PosInf NegInf = NegInf"
| "js_mul NegInf PosInf = NegInf"

fun js_add :: "number \<Rightarrow> number \<Rightarrow> number" where
  "js_add NaN b = NaN"
| "js_add a NaN = NaN"
| "js_add (Fin a) (Fin b) = Fin (a + b)"
| "js_add PosInf NegInf = NaN"
| "js_add NegInf PosInf = NaN"
| "js_add PosInf b = PosInf"
| "js_add NegInf b = NegInf"
| "js_add a PosInf = PosInf"
| "js_add a NegInf = NegInf"

fun js_div :: "number \<Rightarrow> number \<Rightarrow> number" where
  "js_div NaN b = NaN"
| "js_div a NaN = NaN"
| "js_div (Fin a) (Fin b) =
     (if b = 0 then (if a = 0 then NaN else signed_inf (a < 0)) else Fin (a / b))"
| "js_div (Fin a) b = Fin 0"
| "js_div PosInf (Fin b) = signed_inf (b < 0)"
| "js_div NegInf (Fin b) = signed_inf (0 \<le> b)"
| "js_div a b = NaN"

fun Math_sqrt :: "number \<Rightarrow> number" where
  "Math_sqrt NaN = NaN"
| "Math_sqrt PosInf = PosInf"
| "Math_sqrt NegInf = NaN"
| "Math_sqrt (Fin a) = (if a < 0 then NaN else Fin (sqrt a))"

subsection \<open>Rounding to binary64\<close>

text \<open>Rounding to the nearest integer, a tie to the even one.\<close>

definition round_half_even :: "real \<Rightarrow> int" where
  "round_half_even x =
     (let n = \<lfloor>x\<rfloor>; d = x - of_int n
      in if d < 1 / 2 then n
         else if 1 / 2 < d then n + 1
         else if even n then n else n + 1)"

text \<open>
  IEEE 754 binary64, round to nearest, ties to even. A non-zero \<open>x\<close> with
  \<open>2 ^ e \<le> \<bar>x\<bar> < 2 ^ (e + 1)\<close> is rounded to a multiple of \<open>2 ^ (e - 52)\<close>
  (53 significant bits); below the smallest normal number the exponent stays at
  \<open>-1022\<close> (subnormal numbers); a result of magnitude \<open>2 ^ 1024\<close> or more is an
  infinity.
\<close>

definition binary64_exponent :: "real \<Rightarrow> int" where
  "binary64_exponent x = max \<lfloor>log 2 \<bar>x\<bar>\<rfloor> (- 1022)"

definition round64 :: "real \<Rightarrow> number" where
  "round64 x =
     (if x = 0 then Fin 0
      else (let ulp = 2 powi (binary64_exponent x - 52);
                y = of_int (round_half_even (x / ulp)) * ulp
            in if 2 ^ 1024 \<le> \<bar>y\<bar> then signed_inf (x < 0) else Fin y))"

fun binary64 :: "number \<Rightarrow> number" where
  "binary64 (Fin x) = round64 x"
| "binary64 v = v"

subsection \<open>Configuration and state of the client\<close>

text \<open>
  The literal \<open>0.01\<close> denotes the double nearest to one hundredth, which is
  \<open>5764607523034235 / 2 ^ 59\<close>, a little more than one hundredth.
\<close>

definition SILENCE_THRESHOLD :: number where
  "SILENCE_THRESHOLD = Fin (5764607523034235 / 2 ^ 59)"

definition SPEECH_TIMEOUT_MS :: int where
  "SPEECH_TIMEOUT_MS = 1500"

text \<open>
  The mutable variables of the page that the audio callback reads and writes.
  \<open>recordingBuffer\<close> is the array of \<open>Float32Array\<close> chunks.
\<close>

record segmenter =
  recordingBuffer :: "number list list"
  lastSpeechTime :: int
  isListening :: bool
  isSpeaking :: bool

text \<open>
  One \<open>onaudioprocess\<close> event: the samples of channel 0 and the value that
  \<open>Date.now()\<close> returns inside the callback (milliseconds; the wall clock may step
  backwards, so it is an \<open>int\<close> and nothing is assumed of its order).
\<close>

record audioProcessingEvent =
  inputData :: "number list"
  currentTime :: int

subsection \<open>\<open>concatenateFloat32Arrays\<close>\<close>

text \<open>
  \<open>result.set(arr, offset)\<close> on a typed array: it overwrites
  \<open>length arr\<close> elements from \<open>offset\<close> and throws a RangeError (\<open>None\<close>)
  when they do not fit.
\<close>

definition typed_array_set :: "'a list \<Rightarrow> 'a list \<Rightarrow> nat \<Rightarrow> 'a list option" where
  "typed_array_set result arr offset =
     (if offset + length arr \<le> length result
      then Some (take offset result @ arr @ drop (offset + length arr) result)
      else None)"

text \<open>The second \<open>forEach\<close>: copy each chunk at the running offset.\<close>

fun copy_chunks :: "'a list list \<Rightarrow> 'a list \<Rightarrow> nat \<Rightarrow> 'a list option" where
  "copy_chunks [] result offset = Some result"
| "copy_chunks (arr # arrays) result offset =
     (case typed_array_set result arr offset of
        None \<Rightarrow> None
      | Some result' \<Rightarrow> copy_chunks arrays result' (offset + length arr))"

definition concatenateFloat32Arrays :: "number list list \<Rightarrow> number list option" where
  "concatenateFloat32Arrays arrays =
     (let totalLength = foldl (\<lambda>total arr. total + length arr) 0 arrays;
          result = replicate totalLength (Fin 0)
      in copy_chunks arrays result 0)"

subsection \<open>\<open>float32To16BitPCM\<close>\<close>

text \<open>
  Storing a number into an \<open>Int16Array\<close> (ToInt16): NaN and the infinities become 0;
  a finite value is truncated towards zero and reduced modulo \<open>2 ^ 16\<close>, which is
  what \<open>word_of_int\<close> does.
\<close>

definition js_trunc :: "real \<Rightarrow> int" where
  "js_trunc x = (if x < 0 then - \<lfloor>- x\<rfloor> else \<lfloor>x\<rfloor>)"

fun integral_part :: "number \<Rightarrow> int" where
  "integral_part (Fin x) = js_trunc x"
| "integral_part v = 0"

definition ToInt16 :: "number \<Rightarrow> 16 word" where
  "ToInt16 v = word_of_int (integral_part v)"

text \<open>The body of the loop: the value computed for one sample.\<close>

definition pcm_sample :: "number \<Rightarrow> number" where
  "pcm_sample x =
     (let s = Math_max (Fin (- 1)) (Math_min (Fin 1) x)
      in if js_lt s (Fin 0) then js_mul s (Fin 32768) else js_mul s (Fin 32767))"

function pcm_loop :: "number list \<Rightarrow> nat \<Rightarrow> 16 word list \<Rightarrow> 16 word list" where
  "pcm_loop float32Array i pcm16 =
     (if i < length float32Array
      then pcm_loop float32Array (Suc i)
             (if i < length pcm16
              then pcm16[i := ToInt16 (pcm_sample (float32Array ! i))] else pcm16)
      else pcm16)"
  by pat_completeness auto
termination
  by (relation "measure (\<lambda>(float32Array, i, pcm16). length float32Array - i)") auto

declare pcm_loop.simps [simp del]

definition float32To16BitPCM :: "number list \<Rightarrow> 16 word list" where
  "float32To16BitPCM float32Array =
     pcm_loop float32Array 0 (replicate (length float32Array) 0)"

subsection \<open>The audio callback\<close>

text \<open>
  The root mean square of a frame, as the callback computes it: the product, the sum,
  the quotient and the square root are each rounded to a double.
\<close>

definition rms :: "number list \<Rightarrow> number" where
  "rms samples =
     (let sum = foldl (\<lambda>sum x. binary64 (js_add sum (binary64 (js_mul x x)))) (Fin 0) samples
      in binary64 (Math_sqrt (binary64 (js_div sum (Fin (real (length samples)))))))"

text \<open>
  \<open>sendAudioToServer\<close> up to its first \<open>await\<close>: it returns at once when the busy
  flag is set, and otherwise sets the flag and starts the upload. The result holds the
  utterance that is uploaded, if any. The rest of the function runs later, outside the
  audio callback.
\<close>

definition sendAudioToServer :: "number list \<Rightarrow> segmenter \<Rightarrow> segmenter \<times> number list option" where
  "sendAudioToServer float32AudioData s =
     (if isSpeaking s then (s, None)
      else (s\<lparr>isSpeaking := True\<rparr>, Some float32AudioData))"

text \<open>
  The handler of \<open>onaudioprocess\<close>. Updates of the status line are presentation and
  are left out. A RangeError in the concatenation would leave the callback before the
  buffer is cleared.
\<close>

definition onaudioprocess :: "audioProcessingEvent \<Rightarrow> segmenter \<Rightarrow> segmenter \<times> number list option" where
  "onaudioprocess e s =
     (if isSpeaking s \<or> \<not> isListening s then (s, None)
      else if js_gt (rms (inputData e)) SILENCE_THRESHOLD
      then (s\<lparr>recordingBuffer := recordingBuffer s @ [inputData e],
               lastSpeechTime := currentTime e\<rparr>, None)
      else if recordingBuffer s \<noteq> [] \<and> currentTime e - lastSpeechTime s > SPEECH_TIMEOUT_MS
      then (case concatenateFloat32Arrays (recordingBuffer s) of
              None \<Rightarrow> (s, None)
            | Some completeAudio \<Rightarrow>
                if length completeAudio > 0
                then sendAudioToServer completeAudio (s\<lparr>recordingBuffer := []\<rparr>)
                else (s\<lparr>recordingBuffer := []\<rparr>, None))
      else (s, None))"

text \<open>
  A run of the callback over a sequence of frames: the final state and the utterances
  handed to \<open>sendAudioToServer\<close> that were uploaded, in order.
\<close>

fun process_frames :: "audioProcessingEvent list \<Rightarrow> segmenter \<Rightarrow> segmenter \<times> number list list" where
  "process_frames [] s = (s, [])"
| "process_frames (e # es) s =
     (case onaudioprocess e s of
        (s', None) \<Rightarrow> process_frames es s'
      | (s', Some utterance) \<Rightarrow>
          (case process_frames es s' of (s'', rest) \<Rightarrow> (s'', utterance # rest)))"

text \<open>The state after \<open>startListening\<close> has succeeded on a freshly loaded page.\<close>

definition listening :: segmenter where
  "listening = \<lparr>recordingBuffer = [], lastSpeechTime = 0, isListening = True, isSpeaking = False\<rparr>"

section \<open>The backend: the HTTP route and the realtime relay\<close>

text \<open>
  The repository holds two versions of \<open>server.js\<close>: the current one and an
  earlier one without the guard on \<open>event.delta\<close>, the handling of error events and
  the received-data flag. Both are modelled; a \<open>version\<close> selects the handlers.
\<close>

datatype version = Current | Legacy

subsection \<open>The socket, the promise and the events\<close>

text \<open>\<open>ws.readyState\<close> of the \<open>ws\<close> library.\<close>

datatype ready_state = CONNECTING | OPEN | CLOSING | CLOSED

text \<open>
  The promise that \<open>processAudioWithOpenAI\<close> returns. A rejection carries the
  \<open>message\<close> of its error, which is all the route reads of it.
\<close>

datatype promise = Pending | Resolved string | Rejected string

text \<open>
  The fields that the handlers read of a parsed event. An absent field is \<open>None\<close>;
  an event without a string \<open>type\<close> behaves as one of an unknown type. Text is
  a list of 8-bit characters.
\<close>

record event =
  ev_type :: string
  delta :: "string option"
  message :: "string option"
  reason :: "string option"

text \<open>
  The data of a \<open>message\<close> callback: \<open>JSON.parse\<close> (or reading \<open>type\<close> of
  its result) throws an error with the given message, or an event is obtained.
\<close>

datatype payload = Unparseable string | Parsed event

text \<open>
  What the environment does to one relay session: the callbacks of the socket, each with
  its data, and the expiry of the 30 second timer.
\<close>

datatype ws_input =
    WsOpen
  | WsMessage payload
  | WsError string
  | WsClose
  | TimerExpired

text \<open>The decoded request audio, \<open>Buffer.from(audio, 'base64')\<close>, left uninterpreted.\<close>

datatype buffer = Base64Decoded string

text \<open>
  The messages passed to \<open>ws.send\<close>. The session update carries the configured voice
  and the fixed instructions, the item carries the buffer encoded in base64 again, the
  response request asks for audio and text.
\<close>

datatype outbound =
    SessionUpdate
  | ConversationItemCreate buffer
  | ResponseCreate

text \<open>The arguments of a call of \<open>ws.close\<close>.\<close>

datatype close_args = NoArgs | CodeReason nat string

text \<open>
  The variables that the closures of one call of \<open>processAudioWithOpenAI\<close> share.
  \<open>isSessionConfigured\<close> is \<open>isSessionCreated\<close> in the earlier version;
  \<open>timerArmed\<close> holds while the timer (\<open>connectionTimeout\<close>, earlier
  \<open>timeout\<close>) has neither been cleared nor run; \<open>sent\<close> lists the messages of
  the calls of \<open>ws.send\<close> that returned, \<open>closeCalls\<close> the calls of
  \<open>ws.close\<close>, both in order.
\<close>

record relay =
  audioBuffer :: buffer
  readyState :: ready_state
  responseAudioChunks :: "string list"
  isSessionConfigured :: bool
  hasReceivedData :: bool
  timerArmed :: bool
  sent :: "outbound list"
  closeCalls :: "close_args list"
  settled :: promise

text \<open>The state when the executor of the promise has run: the socket is connecting.\<close>

definition new_relay :: "buffer \<Rightarrow> relay" where
  "new_relay b =
     \<lparr>audioBuffer = b, readyState = CONNECTING, responseAudioChunks = [],
      isSessionConfigured = False, hasReceivedData = False, timerArmed = True,
      sent = [], closeCalls = [], settled = Pending\<rparr>"

text \<open>
  \<open>resolve\<close> and \<open>reject\<close> of a JavaScript promise: the first call settles it,
  every later call is ignored.
\<close>

definition resolve :: "string \<Rightarrow> relay \<Rightarrow> relay" where
  "resolve v s = (if settled s = Pending then s\<lparr>settled := Resolved v\<rparr> else s)"

definition reject :: "string \<Rightarrow> relay \<Rightarrow> relay" where
  "reject m s = (if settled s = Pending then s\<lparr>settled := Rejected m\<rparr> else s)"

text \<open>
  \<open>ws.close\<close>: the call is recorded; the library moves a socket that is not yet
  closed to \<open>CLOSING\<close>. The \<open>error\<close> and \<open>close\<close> events that the library
  emits for an aborted handshake or a completed closure are inputs of their own, after
  the caller has returned (as version 8 of the library emits them).
\<close>

definition ws_close :: "close_args \<Rightarrow> relay \<Rightarrow> relay" where
  "ws_close args s =
     s\<lparr>closeCalls := closeCalls s @ [args],
       readyState := (if readyState s = CLOSED then CLOSED else CLOSING)\<rparr>"

text \<open>
  A handler step either completes (\<open>Inr\<close>) or throws (\<open>Inl\<close>) an error with a
  message, in the state reached when it was thrown.
\<close>

type_synonym attempt = "(string \<times> relay) + relay"

definition and_then :: "attempt \<Rightarrow> (relay \<Rightarrow> attempt) \<Rightarrow> attempt" where
  "and_then a f = (case a of Inl thrown \<Rightarrow> Inl thrown | Inr s \<Rightarrow> f s)"

text \<open>The state in which an attempt ends, thrown or not.\<close>

definition final :: "attempt \<Rightarrow> relay" where
  "final a = (case a of Inl (err, s) \<Rightarrow> s | Inr s \<Rightarrow> s)"

text \<open>
  \<open>ws.send\<close>, as the \<open>ws\<close> library has it in versions 7 and 8: it throws on a
  socket that is still connecting; otherwise it returns, and the call is recorded (the
  library transmits the message only while the socket is open).
\<close>

definition ws_send :: "outbound \<Rightarrow> relay \<Rightarrow> attempt" where
  "ws_send m s =
     (if readyState s = CONNECTING
      then Inl (''WebSocket is not open: readyState 0 (CONNECTING)'', s)
      else Inr (s\<lparr>sent := sent s @ [m]\<rparr>))"

definition clearTimeout :: "relay \<Rightarrow> relay" where
  "clearTimeout s = s\<lparr>timerArmed := False\<rparr>"

text \<open>\<open>a || b\<close> on an optional string: absent and empty strings are falsy.\<close>

fun or_else :: "string option \<Rightarrow> string \<Rightarrow> string" where
  "or_else None b = b"
| "or_else (Some a) b = (if a = [] then b else a)"

text \<open>\<open>chunks.join('')\<close>.\<close>

definition join :: "string list \<Rightarrow> string" where
  "join chunks = concat chunks"

text \<open>The three messages sent when the session has been created.\<close>

definition configure_session :: "relay \<Rightarrow> attempt" where
  "configure_session s =
     and_then
       (and_then (ws_send SessionUpdate (s\<lparr>isSessionConfigured := True\<rparr>))
          (\<lambda>s1. ws_send (ConversationItemCreate (audioBuffer s1)) s1))
       (ws_send ResponseCreate)"

subsection \<open>The handlers of the current version\<close>

text \<open>\<open>event.message || event.reason || 'Unknown API error'\<close>.\<close>

definition upstream_message :: "event \<Rightarrow> string" where
  "upstream_message ev = or_else (message ev) (or_else (reason ev) ''Unknown API error'')"

text \<open>The \<open>try\<close> block of the \<open>message\<close> handler.\<close>

definition incoming_try :: "payload \<Rightarrow> relay \<Rightarrow> attempt" where
  "incoming_try p s =
     (case p of
        Unparseable err \<Rightarrow> Inl (err, s)
      | Parsed ev \<Rightarrow>
          if ev_type ev = ''session.created'' \<and> \<not> isSessionConfigured s
          then configure_session s
          else if ev_type ev = ''response.audio.delta''
          then (case delta ev of
                  None \<Rightarrow> Inr s
                | Some d \<Rightarrow>
                    if d \<noteq> [] then Inr (s\<lparr>responseAudioChunks := responseAudioChunks s @ [d]\<rparr>)
                    else Inr s)
          else if ev_type ev = ''response.text.delta'' then Inr s
          else if ev_type ev = ''response.done''
          then (let completeAudioBase64 = join (responseAudioChunks s);
                    s1 = (if readyState s = OPEN
                          then ws_close (CodeReason 1000 ''Processing complete'') s else s)
                in Inr (resolve completeAudioBase64 s1))
          else if ev_type ev = ''error'' \<or> ev_type ev = ''session.error''
          then (let s1 = (if readyState s = OPEN
                          then ws_close (CodeReason 1011 ''API Error'') s else s)
                in Inr (reject (''OpenAI API Error: '' @ upstream_message ev) s1))
          else Inr s)"

text \<open>The \<open>message\<close> handler: an error thrown in the block is logged and dropped.\<close>

definition incoming :: "payload \<Rightarrow> relay \<Rightarrow> relay" where
  "incoming p s =
     (case incoming_try p (s\<lparr>hasReceivedData := True\<rparr>) of
        Inl (err, s') \<Rightarrow> s'
      | Inr s' \<Rightarrow> s')"

text \<open>The callback of \<open>connectionTimeout\<close>.\<close>

definition connectionTimeout :: "relay \<Rightarrow> relay" where
  "connectionTimeout s =
     (if readyState s = CONNECTING \<or> (readyState s = OPEN \<and> \<not> hasReceivedData s)
      then reject ''Timeout: OpenAI Realtime API connection or initial data timeout''
             (ws_close (CodeReason 1000 ''Connection timeout'') s)
      else s)"

definition on_open :: "relay \<Rightarrow> relay" where
  "on_open s = clearTimeout s"

definition on_error :: "string \<Rightarrow> relay \<Rightarrow> relay" where
  "on_error err s = reject err (clearTimeout s)"

definition on_close :: "relay \<Rightarrow> relay" where
  "on_close s = clearTimeout s"

subsection \<open>The handlers of the earlier version\<close>

text \<open>
  The three tests are separate \<open>if\<close> statements, the chunk is pushed unguarded (an
  absent \<open>delta\<close> is pushed as \<open>undefined\<close>, which \<open>join\<close> renders as the empty
  string, so the empty string is stored for it) and \<open>ws.close\<close> is called without
  arguments.
\<close>

definition incoming_try_legacy :: "payload \<Rightarrow> relay \<Rightarrow> attempt" where
  "incoming_try_legacy p s =
     (case p of
        Unparseable err \<Rightarrow> Inl (err, s)
      | Parsed ev \<Rightarrow>
          and_then
            (if ev_type ev = ''session.created'' \<and> \<not> isSessionConfigured s
             then configure_session s else Inr s)
            (\<lambda>s1.
               let s2 = (if ev_type ev = ''response.audio.delta''
                         then s1\<lparr>responseAudioChunks := responseAudioChunks s1 @
                                   [case delta ev of None \<Rightarrow> [] | Some d \<Rightarrow> d]\<rparr>
                         else s1)
               in if ev_type ev = ''response.done''
                  then (let completeAudioBase64 = join (responseAudioChunks s2)
                        in Inr (resolve completeAudioBase64 (ws_close NoArgs s2)))
                  else Inr s2))"

text \<open>An error thrown in the block rejects the promise.\<close>

definition incoming_legacy :: "payload \<Rightarrow> relay \<Rightarrow> relay" where
  "incoming_legacy p s =
     (case incoming_try_legacy p s of
        Inl (parseError, s') \<Rightarrow> reject parseError s'
      | Inr s' \<Rightarrow> s')"

text \<open>The message is \<open>Timeout na conex\<close>, a tilde, \<open>o com OpenAI\<close>.\<close>

definition timeout_message_legacy :: string where
  "timeout_message_legacy = ''Timeout na conex'' @ [CHR 0xE3] @ ''o com OpenAI''"

definition timeout_legacy :: "relay \<Rightarrow> relay" where
  "timeout_legacy s =
     (if readyState s = OPEN
      then reject timeout_message_legacy (ws_close NoArgs s)
      else s)"

definition on_open_legacy :: "relay \<Rightarrow> relay" where
  "on_open_legacy s = s"

definition on_error_legacy :: "string \<Rightarrow> relay \<Rightarrow> relay" where
  "on_error_legacy err s = reject err s"

definition on_close_legacy :: "relay \<Rightarrow> relay" where
  "on_close_legacy s = clearTimeout s"

subsection \<open>Running a session\<close>

text \<open>
  What the \<open>ws\<close> library does to \<open>readyState\<close> before it calls a handler: the
  socket is open when \<open>open\<close> is emitted, closed when \<open>close\<close> is emitted, and on
  its way to being closed when \<open>error\<close> is emitted.
\<close>

definition library_transition :: "ws_input \<Rightarrow> relay \<Rightarrow> relay" where
  "library_transition i s =
     (case i of
        WsOpen \<Rightarrow> s\<lparr>readyState := OPEN\<rparr>
      | WsClose \<Rightarrow> s\<lparr>readyState := CLOSED\<rparr>
      | WsError err \<Rightarrow> s\<lparr>readyState := (if readyState s = CLOSED then CLOSED else CLOSING)\<rparr>
      | WsMessage p \<Rightarrow> s
      | TimerExpired \<Rightarrow> s)"

text \<open>
  One input to the session. A timer that was cleared, or has run, does nothing when the
  30 seconds are over.
\<close>

definition step :: "version \<Rightarrow> ws_input \<Rightarrow> relay \<Rightarrow> relay" where
  "step v i s0 =
     (let s = library_transition i s0 in
      case i of
        WsOpen \<Rightarrow> (case v of Current \<Rightarrow> on_open s | Legacy \<Rightarrow> on_open_legacy s)
      | WsMessage p \<Rightarrow> (case v of Current \<Rightarrow> incoming p s | Legacy \<Rightarrow> incoming_legacy p s)
      | WsError err \<Rightarrow> (case v of Current \<Rightarrow> on_error err s | Legacy \<Rightarrow> on_error_legacy err s)
      | WsClose \<Rightarrow> (case v of Current \<Rightarrow> on_close s | Legacy \<Rightarrow> on_close_legacy s)
      | TimerExpired \<Rightarrow>
          if timerArmed s
          then (case v of
                  Current \<Rightarrow> connectionTimeout (s\<lparr>timerArmed := False\<rparr>)
                | Legacy \<Rightarrow> timeout_legacy (s\<lparr>timerArmed := False\<rparr>))
          else s)"

fun run :: "version \<Rightarrow> ws_input list \<Rightarrow> relay \<Rightarrow> relay" where
  "run v [] s = s"
| "run v (i # inputs) s = run v inputs (step v i s)"

text \<open>
  \<open>processAudioWithOpenAI\<close>: the session after the given inputs; \<open>settled\<close> of it
  is the state of the returned promise. \<open>sampleRate\<close> is not used.
\<close>

definition processAudioWithOpenAI :: "version \<Rightarrow> buffer \<Rightarrow> int \<Rightarrow> ws_input list \<Rightarrow> relay" where
  "processAudioWithOpenAI v decoded rate inputs = run v inputs (new_relay decoded)"

text \<open>
  For the statement of the concatenation property (no handler uses it): the fragments
  carried by the \<open>response.audio.delta\<close> events among the inputs, in arrival order.
\<close>

fun audio_deltas :: "ws_input list \<Rightarrow> string list" where
  "audio_deltas [] = []"
| "audio_deltas (WsMessage (Parsed ev) # inputs) =
     (if ev_type ev = ''response.audio.delta''
      then (case delta ev of None \<Rightarrow> [] | Some d \<Rightarrow> [d]) else []) @ audio_deltas inputs"
| "audio_deltas (i # inputs) = audio_deltas inputs"

text \<open>Events with only a type, and an audio fragment event, for stating scenarios.\<close>

definition plain_event :: "string \<Rightarrow> event" where
  "plain_event t = \<lparr>ev_type = t, delta = None, message = None, reason = None\<rparr>"

definition audio_delta :: "string \<Rightarrow> ws_input" where
  "audio_delta fragment =
     WsMessage (Parsed \<lparr>ev_type = ''response.audio.delta'', delta = Some fragment,
                          message = None, reason = None\<rparr>)"

subsection \<open>The route \<open>/process-audio\<close>\<close>

text \<open>
  The value of the \<open>audio\<close> field of a parsed body: a string; a falsy value that is
  not a string (\<open>null\<close>, \<open>false\<close>, \<open>0\<close>); or a truthy value that is not a string
  (a number, \<open>true\<close>, an array, an object), given with what
  \<open>Buffer.from(audio, 'base64')\<close> does with it: it throws an error with a message
  (\<open>Inl\<close>, as for a number) or returns a buffer (\<open>Inr\<close>, as for an array).
\<close>

datatype audio_value =
    Text string
  | FalsyValue
  | TruthyValue "string + buffer"

record request_body =
  audio :: "audio_value option"
  sampleRate :: "int option"

text \<open>
  \<open>req.body\<close>: the parsed object, or \<open>undefined\<close>; for the latter the message of
  the TypeError that destructuring it throws is given.
\<close>

datatype request = NoBody string | Body request_body

datatype json = AudioJson string | ErrorJson string | ErrorDetailsJson string string

record http_response =
  status :: nat
  body :: json

text \<open>
  The outcome of one request: the response sent, if any (the handler stays suspended
  while the promise is pending), and the relay session that was opened, if any.
\<close>

record handled =
  response :: "http_response option"
  session :: "relay option"

text \<open>\<open>Dados de \<close>, a acute, \<open>udio n\<close>, a tilde, \<open>o fornecidos\<close>.\<close>

definition missing_audio_message :: string where
  "missing_audio_message = ''Dados de '' @ [CHR 0xE1] @ ''udio n'' @ [CHR 0xE3] @ ''o fornecidos''"

definition internal_error_message :: "version \<Rightarrow> string" where
  "internal_error_message v =
     (case v of
        Current \<Rightarrow> ''Erro interno ao processar '' @ [CHR 0xE1] @ ''udio''
      | Legacy \<Rightarrow> ''Erro ao processar '' @ [CHR 0xE1] @ ''udio'')"

definition bad_request :: handled where
  "bad_request =
     \<lparr>response = Some \<lparr>status = 400, body = ErrorJson missing_audio_message\<rparr>, session = None\<rparr>"

text \<open>
  From the decoded buffer on: the relay session is opened and its promise awaited. A
  rejection is thrown at the \<open>await\<close>, with the message of the error.
\<close>

definition relay_audio :: "version \<Rightarrow> buffer \<Rightarrow> int \<Rightarrow> ws_input list \<Rightarrow> (string \<times> relay option) + handled" where
  "relay_audio v decoded rate inputs =
     (let s = processAudioWithOpenAI v decoded rate inputs
      in case settled s of
           Pending \<Rightarrow> Inr \<lparr>response = None, session = Some s\<rparr>
         | Resolved responseAudio \<Rightarrow>
             Inr \<lparr>response = Some \<lparr>status = 200, body = AudioJson responseAudio\<rparr>,
                  session = Some s\<rparr>
         | Rejected details \<Rightarrow> Inl (details, Some s))"

text \<open>
  The \<open>try\<close> block of the route: it completes with what was sent (\<open>Inr\<close>), or an
  error is thrown (\<open>Inl\<close>, its message and the session opened so far).
\<close>

definition route_try :: "version \<Rightarrow> request \<Rightarrow> ws_input list \<Rightarrow> (string \<times> relay option) + handled" where
  "route_try v req inputs =
     (case req of
        NoBody err \<Rightarrow> Inl (err, None)
      | Body b \<Rightarrow>
          (let rate = (case sampleRate b of None \<Rightarrow> 16000 | Some r \<Rightarrow> r) in
           case audio b of
             None \<Rightarrow> Inr bad_request
           | Some FalsyValue \<Rightarrow> Inr bad_request
           | Some (Text a) \<Rightarrow>
               if a = [] then Inr bad_request
               else relay_audio v (Base64Decoded a) rate inputs
           | Some (TruthyValue (Inl err)) \<Rightarrow> Inl (err, None)
           | Some (TruthyValue (Inr decoded)) \<Rightarrow> relay_audio v decoded rate inputs))"

text \<open>The route: the \<open>catch\<close> block answers 500 with the message of the error.\<close>

definition process_audio :: "version \<Rightarrow> request \<Rightarrow> ws_input list \<Rightarrow> handled" where
  "process_audio v req inputs =
     (case route_try v req inputs of
        Inl (details, opened) \<Rightarrow>
          \<lparr>response = Some \<lparr>status = 500,
                            body = ErrorDetailsJson (internal_error_message v) details\<rparr>,
           session = opened\<rparr>
      | Inr h \<Rightarrow> h)"

section \<open>Properties of the client\<close>

subsection \<open>Rounding\<close>

text \<open>
  How to evaluate \<open>round64\<close>: the binade of the argument fixes the spacing, and the
  quotient by the spacing is rounded to an integer.
\<close>

lemma round_half_even_near:
  "real_of_int m - 1 / 2 < x \<Longrightarrow> x < real_of_int m + 1 / 2 \<Longrightarrow> round_half_even x = m"
proof -
  assume lo: "real_of_int m - 1 / 2 < x" and hi: "x < real_of_int m + 1 / 2"
  show ?thesis
  proof (cases "real_of_int m \<le> x")
    case True
    then have "\<lfloor>x\<rfloor> = m" using hi by (intro floor_unique) simp_all
    then show ?thesis using hi by (simp add: round_half_even_def Let_def)
  next
    case False
    then have "\<lfloor>x\<rfloor> = m - 1" using lo by (intro floor_unique) simp_all
    then show ?thesis using lo False by (simp add: round_half_even_def Let_def)
  qed
qed

lemma round_half_even_of_int [simp]: "round_half_even (real_of_int m) = m"
  by (rule round_half_even_near) simp_all

lemma binary64_exponent_eq:
  assumes "2 powi e \<le> \<bar>x\<bar>" "\<bar>x\<bar> < 2 powi (e + 1)" "- 1022 \<le> e"
  shows "binary64_exponent x = e"
proof -
  have pos: "0 < \<bar>x\<bar>" using assms(1) zero_less_power_int [of "2::real" e] by linarith
  have "(2::real) powr real_of_int e = 2 powi e" "(2::real) powr (real_of_int e + 1) = 2 powi (e + 1)"
    using powr_real_of_int' [of "2::real" e] powr_real_of_int' [of "2::real" "e + 1"] by simp_all
  then have "\<lfloor>log 2 \<bar>x\<bar>\<rfloor> = e"
    using assms pos by (simp add: floor_log_eq_powr_iff)
  then show ?thesis using assms(3) by (simp add: binary64_exponent_def)
qed

lemma round64_eval:
  assumes "2 powi e \<le> \<bar>x\<bar>" "\<bar>x\<bar> < 2 powi (e + 1)" "- 1022 \<le> e"
    and "round_half_even (x / 2 powi (e - 52)) = m"
    and "\<bar>real_of_int m * 2 powi (e - 52)\<bar> < 2 ^ 1024"
  shows "round64 x = Fin (real_of_int m * 2 powi (e - 52))"
proof -
  have "0 < (2::real) powi e" by simp
  with assms(1) have "0 < \<bar>x\<bar>" by linarith
  then have "x \<noteq> 0" by simp
  then show ?thesis
    using binary64_exponent_eq [OF assms(1-3)] assms(4,5)
    by (simp add: round64_def Let_def)
qed

lemma round64_zero: "round64 0 = Fin 0"
  by (simp add: round64_def)

lemma round64_power_of_two:
  assumes "- 1022 \<le> k" "k \<le> 1023"
  shows "round64 (2 powi k) = Fin (2 powi k)"
proof -
  have split: "(2::real) powi k = 2 powi 52 * 2 powi (k - 52)"
    using power_int_add [of "2::real" 52 "k - 52"] by simp
  have a: "(2::real) powi k \<le> \<bar>2 powi k\<bar>" by simp
  have b: "\<bar>(2::real) powi k\<bar> < 2 powi (k + 1)"
    by (simp add: power_int_add)
  have "(2::real) powi k / 2 powi (k - 52) = real_of_int (2 ^ 52)"
    using split by simp
  then have c: "round_half_even (2 powi k / 2 powi (k - 52)) = 2 ^ 52"
    by (simp only: round_half_even_of_int)
  have "(2::real) powi k < 2 powi 1024"
    using assms(2) by (intro power_int_strict_increasing) simp_all
  then have d: "\<bar>real_of_int (2 ^ 52) * 2 powi (k - 52)\<bar> < 2 ^ 1024"
    using split by simp
  from round64_eval [OF a b assms(1) c d] split show ?thesis by simp
qed

lemma round64_one: "round64 1 = Fin 1"
  using round64_power_of_two [of 0] by simp

lemma round64_two: "round64 2 = Fin 2"
  using round64_power_of_two [of 1] by simp

lemma threshold_is_nearest_double: "round64 (1 / 100) = SILENCE_THRESHOLD"
proof -
  have r: "round_half_even (1 / 100 / 2 powi (- 7 - 52)) = 5764607523034235"
    by (rule round_half_even_near) (simp_all add: power_int_minus)
  have "round64 (1 / 100) = Fin (real_of_int 5764607523034235 * 2 powi (- 7 - 52))"
    by (rule round64_eval [OF _ _ _ r]) (simp_all add: power_int_minus)
  then show ?thesis by (simp add: SILENCE_THRESHOLD_def power_int_minus)
qed



lemma round64_at:
  assumes "- 1022 \<le> e"
    and "2 powi e \<le> \<bar>x\<bar> \<and> \<bar>x\<bar> < 2 powi (e + 1)"
    and "real_of_int m - 1 / 2 < x / 2 powi (e - 52) \<and> x / 2 powi (e - 52) < real_of_int m + 1 / 2"
    and "y = real_of_int m * 2 powi (e - 52)"
    and "\<bar>y\<bar> < 2 ^ 1024"
  shows "round64 x = Fin y"
proof -
  have "round_half_even (x / 2 powi (e - 52)) = m"
    using assms(3) by (intro round_half_even_near) simp_all
  with assms show ?thesis
    using round64_eval [of e x m] by simp
qed

lemma round_half_even_tie:
  assumes "x = real_of_int n + 1 / 2"
  shows "round_half_even x = (if even n then n else n + 1)"
proof -
  have "\<lfloor>x\<rfloor> = n" using assms by (intro floor_unique) simp_all
  then show ?thesis using assms by (simp add: round_half_even_def Let_def)
qed

lemma round64_tie_at:
  assumes "- 1022 \<le> e"
    and "2 powi e \<le> \<bar>x\<bar> \<and> \<bar>x\<bar> < 2 powi (e + 1)"
    and "x / 2 powi (e - 52) = real_of_int n + 1 / 2"
    and "y = real_of_int (if even n then n else n + 1) * 2 powi (e - 52)"
    and "\<bar>y\<bar> < 2 ^ 1024"
  shows "round64 x = Fin y"
proof -
  have "round_half_even (x / 2 powi (e - 52)) = (if even n then n else n + 1)"
    using assms(3) by (rule round_half_even_tie)
  with assms show ?thesis
    using round64_eval [of e x "if even n then n else n + 1"] by simp
qed

lemma round64_sqrt_at:
  assumes "- 1022 \<le> e" "1 \<le> m"
    and "(2 powi e)\<^sup>2 \<le> q \<and> q < (2 powi (e + 1))\<^sup>2"
    and "((real_of_int m - 1 / 2) * 2 powi (e - 52))\<^sup>2 < q \<and>
         q < ((real_of_int m + 1 / 2) * 2 powi (e - 52))\<^sup>2"
    and "y = real_of_int m * 2 powi (e - 52)"
    and "\<bar>y\<bar> < 2 ^ 1024"
  shows "round64 (sqrt q) = Fin y"
proof -
  have ulp: "0 < (2::real) powi (e - 52)" by simp
  have q: "0 \<le> q" using assms(3) by (meson order_trans zero_le_power2)
  have a: "2 powi e \<le> sqrt q" using assms(3) by (intro real_le_rsqrt) simp
  have b: "sqrt q < 2 powi (e + 1)" using assms(3) by (intro real_less_lsqrt) simp_all
  have "(real_of_int m - 1 / 2) * 2 powi (e - 52) < sqrt q"
    using assms(4) by (intro real_less_rsqrt) simp
  then have c: "real_of_int m - 1 / 2 < sqrt q / 2 powi (e - 52)"
    using ulp by (simp add: pos_less_divide_eq)
  have "0 \<le> (real_of_int m + 1 / 2) * 2 powi (e - 52)" using assms(2) by simp
  then have "sqrt q < (real_of_int m + 1 / 2) * 2 powi (e - 52)"
    using assms(4) by (intro real_less_lsqrt) simp_all
  then have d: "sqrt q / 2 powi (e - 52) < real_of_int m + 1 / 2"
    using ulp by (simp add: pos_divide_less_eq)
  have "0 \<le> sqrt q" using q by simp
  with a b c d assms show ?thesis
    by (intro round64_at [where e = e and m = m]) simp_all
qed



subsection \<open>Concatenation and classification\<close>

lemma foldl_total_length:
  "foldl (\<lambda>total arr. total + length arr) n arrays = n + sum_list (map length arrays)"
  by (induction arrays arbitrary: n) auto

lemma copy_chunks_concat:
  "offset + sum_list (map length arrays) \<le> length result \<Longrightarrow>
   copy_chunks arrays result offset =
     Some (take offset result @ concat arrays @ drop (offset + sum_list (map length arrays)) result)"
proof (induction arrays arbitrary: result offset)
  case Nil
  then show ?case by simp
next
  case (Cons arr arrays)
  let ?r = "take offset result @ arr @ drop (offset + length arr) result"
  from Cons.prems have fits: "offset + length arr \<le> length result" by simp
  then have len: "length ?r = length result" by simp
  have step: "typed_array_set result arr offset = Some ?r"
    using fits by (simp add: typed_array_set_def)
  have "offset + length arr + sum_list (map length arrays) \<le> length ?r"
    using Cons.prems len by simp
  from Cons.IH [OF this]
  have "copy_chunks arrays ?r (offset + length arr) =
      Some (take (offset + length arr) ?r @ concat arrays @
            drop (offset + length arr + sum_list (map length arrays)) ?r)" .
  moreover have "take (offset + length arr) ?r = take offset result @ arr"
    using fits by simp
  moreover have "drop (offset + length arr + sum_list (map length arrays)) ?r =
      drop (offset + length arr + sum_list (map length arrays)) result"
    using fits by (simp add: add.commute)
  ultimately show ?case using step by (simp add: add.assoc)
qed

lemma concatenateFloat32Arrays_concat:
  "concatenateFloat32Arrays arrays = Some (concat arrays)"
  by (simp add: concatenateFloat32Arrays_def foldl_total_length copy_chunks_concat)

lemma rms_empty: "rms [] = NaN"
  by (simp add: rms_def)

lemma speech_not_empty: "js_gt (rms samples) SILENCE_THRESHOLD \<Longrightarrow> samples \<noteq> []"
  by (auto simp: rms_empty js_gt_def SILENCE_THRESHOLD_def)

lemma onaudioprocess_busy: "isSpeaking s \<Longrightarrow> onaudioprocess e s = (s, None)"
  by (simp add: onaudioprocess_def)

lemma onaudioprocess_speech:
  "\<not> isSpeaking s \<Longrightarrow> isListening s \<Longrightarrow> js_gt (rms (inputData e)) SILENCE_THRESHOLD \<Longrightarrow>
   onaudioprocess e s =
     (s\<lparr>recordingBuffer := recordingBuffer s @ [inputData e], lastSpeechTime := currentTime e\<rparr>, None)"
  by (simp add: onaudioprocess_def)

lemma onaudioprocess_quiet:
  "\<not> js_gt (rms (inputData e)) SILENCE_THRESHOLD \<Longrightarrow>
   recordingBuffer s = [] \<or> currentTime e - lastSpeechTime s \<le> SPEECH_TIMEOUT_MS \<Longrightarrow>
   onaudioprocess e s = (s, None)"
  by (auto simp: onaudioprocess_def)

lemma onaudioprocess_end_of_speech:
  assumes "\<not> isSpeaking s" "isListening s"
    and "\<not> js_gt (rms (inputData e)) SILENCE_THRESHOLD"
    and "recordingBuffer s \<noteq> []" "\<forall>chunk \<in> set (recordingBuffer s). chunk \<noteq> []"
    and "currentTime e - lastSpeechTime s > SPEECH_TIMEOUT_MS"
  shows "onaudioprocess e s =
     (s\<lparr>recordingBuffer := [], isSpeaking := True\<rparr>, Some (concat (recordingBuffer s)))"
proof -
  from assms(4) obtain c cs where "recordingBuffer s = c # cs" by (cases "recordingBuffer s") auto
  with assms(5) have "concat (recordingBuffer s) \<noteq> []" by auto
  with assms show ?thesis
    by (simp add: onaudioprocess_def concatenateFloat32Arrays_concat sendAudioToServer_def)
qed

lemma process_frames_append:
  "process_frames (xs @ ys) s =
     (case process_frames xs s of (s', us) \<Rightarrow>
        case process_frames ys s' of (s'', vs) \<Rightarrow> (s'', us @ vs))"
  by (induction xs arbitrary: s) (auto split: prod.splits option.splits)

lemma process_frames_busy: "isSpeaking s \<Longrightarrow> process_frames es s = (s, [])"
  by (induction es) (auto simp: onaudioprocess_busy)

lemma process_frames_quiet:
  "\<forall>e \<in> set es. \<not> js_gt (rms (inputData e)) SILENCE_THRESHOLD \<and>
      (recordingBuffer s = [] \<or> currentTime e - lastSpeechTime s \<le> SPEECH_TIMEOUT_MS) \<Longrightarrow>
   process_frames es s = (s, [])"
  by (induction es) (auto simp: onaudioprocess_quiet)

lemma process_frames_speech:
  "\<not> isSpeaking s \<Longrightarrow> isListening s \<Longrightarrow>
   \<forall>e \<in> set es. js_gt (rms (inputData e)) SILENCE_THRESHOLD \<Longrightarrow>
   process_frames es s =
     (s\<lparr>recordingBuffer := recordingBuffer s @ map inputData es,
        lastSpeechTime := (if es = [] then lastSpeechTime s else currentTime (last es))\<rparr>, [])"
proof (induction es arbitrary: s)
  case Nil
  then show ?case by simp
next
  case (Cons e es)
  let ?s1 = "s\<lparr>recordingBuffer := recordingBuffer s @ [inputData e], lastSpeechTime := currentTime e\<rparr>"
  have one: "onaudioprocess e s = (?s1, None)"
    using Cons.prems by (simp add: onaudioprocess_speech)
  have "process_frames es ?s1 =
     (?s1\<lparr>recordingBuffer := recordingBuffer ?s1 @ map inputData es,
        lastSpeechTime := (if es = [] then lastSpeechTime ?s1 else currentTime (last es))\<rparr>, [])"
    using Cons.prems by (intro Cons.IH) simp_all
  with one show ?case by simp
qed

subsection \<open>Frames while busy\<close>

text \<open>
  Claim C8. A frame that arrives while \<open>isSpeaking\<close> is set is dropped entirely,
  whatever its amplitude: the callback returns the state unchanged (nothing is appended
  to \<open>recordingBuffer\<close>, \<open>lastSpeechTime\<close> keeps its value) and uploads no
  utterance; so does any sequence of frames.
\<close>

theorem C8_busy_frames_dropped:
  "isSpeaking s \<Longrightarrow> onaudioprocess e s = (s, None) \<and> process_frames es s = (s, [])"
  by (simp add: onaudioprocess_busy process_frames_busy)

theorem C8_witness:
  "onaudioprocess \<lparr>inputData = [Fin 1], currentTime = 5000\<rparr> (listening\<lparr>isSpeaking := True\<rparr>) =
     (listening\<lparr>isSpeaking := True\<rparr>, None) \<and>
   process_frames [\<lparr>inputData = [Fin 1], currentTime = 5000\<rparr>, \<lparr>inputData = [Fin 0], currentTime = 9000\<rparr>]
     (listening\<lparr>isSpeaking := True\<rparr>) = (listening\<lparr>isSpeaking := True\<rparr>, [])"
proof -
  have busy: "isSpeaking (listening\<lparr>isSpeaking := True\<rparr>)" by simp
  from C8_busy_frames_dropped [OF busy] show ?thesis by blast
qed

subsection \<open>Silence only\<close>



subsection \<open>Speech followed by silence\<close>

text \<open>
  Claim C7, as amended. Starting while listening, not busy and with an empty buffer: a
  non-empty run of frames above the threshold, followed by frames not above it of which
  one arrives more than \<open>SPEECH_TIMEOUT_MS\<close> after the last frame above the
  threshold, uploads exactly one utterance. It is the concatenation of the frames above
  the threshold (no silent frame is buffered), so its length is the sum of their
  lengths; the buffer is empty afterwards. A frame is above the threshold when the root
  mean square that the callback computes, in doubles, exceeds the double \<open>0.01\<close>.
\<close>

theorem C7_one_utterance_after_timeout:
  assumes start: "isListening s" "\<not> isSpeaking s" "recordingBuffer s = []"
    and speech: "speech \<noteq> []" "\<forall>e \<in> set speech. js_gt (rms (inputData e)) SILENCE_THRESHOLD"
    and silence: "\<forall>e \<in> set silence. \<not> js_gt (rms (inputData e)) SILENCE_THRESHOLD"
    and timeout: "\<exists>e \<in> set silence. currentTime e - currentTime (last speech) > SPEECH_TIMEOUT_MS"
  shows "snd (process_frames (speech @ silence) s) = [concat (map inputData speech)] \<and>
         length (concat (map inputData speech)) = sum_list (map (\<lambda>e. length (inputData e)) speech) \<and>
         recordingBuffer (fst (process_frames (speech @ silence) s)) = []"
proof -
  let ?late = "\<lambda>e. currentTime e - currentTime (last speech) > SPEECH_TIMEOUT_MS"
  let ?s1 = "s\<lparr>recordingBuffer := map inputData speech, lastSpeechTime := currentTime (last speech)\<rparr>"
  let ?s2 = "?s1\<lparr>recordingBuffer := [], isSpeaking := True\<rparr>"
  from timeout obtain ys e zs where split: "silence = ys @ e # zs" and late: "?late e"
    and early: "\<forall>y \<in> set ys. \<not> ?late y"
    using split_list_first_prop [of silence ?late] by blast
  have p1: "process_frames speech s = (?s1, [])"
    using start speech by (simp add: process_frames_speech)
  have p2: "process_frames ys ?s1 = (?s1, [])"
    using silence early split by (intro process_frames_quiet) auto
  have chunks: "\<forall>chunk \<in> set (recordingBuffer ?s1). chunk \<noteq> []"
    using speech(2) speech_not_empty by auto
  have "onaudioprocess e ?s1 = (?s1\<lparr>recordingBuffer := [], isSpeaking := True\<rparr>, Some (concat (recordingBuffer ?s1)))"
    using start speech(1) silence split late chunks
    by (intro onaudioprocess_end_of_speech) auto
  then have p3: "onaudioprocess e ?s1 = (?s2, Some (concat (map inputData speech)))"
    by simp
  have p4: "process_frames zs ?s2 = (?s2, [])"
    by (intro process_frames_busy) simp
  have p5: "process_frames (e # zs) ?s1 = (?s2, [concat (map inputData speech)])"
    using p3 p4 by simp
  have "process_frames (speech @ ys @ e # zs) s = (?s2, [concat (map inputData speech)])"
    by (simp only: process_frames_append p1 p2 p5 prod.case append_Nil)
  then have "process_frames (speech @ silence) s = (?s2, [concat (map inputData speech)])"
    by (simp only: split)
  moreover have "length (concat (map inputData speech)) = sum_list (map (\<lambda>e. length (inputData e)) speech)"
    by (simp add: length_concat comp_def)
  ultimately show ?thesis by simp
qed

theorem C7_witness:
  "snd (process_frames
     ([\<lparr>inputData = [Fin 1], currentTime = 0\<rparr>, \<lparr>inputData = [Fin 1, Fin (- 1)], currentTime = 256\<rparr>] @
      [\<lparr>inputData = [Fin 0], currentTime = 512\<rparr>, \<lparr>inputData = [Fin 0], currentTime = 1757\<rparr>,
       \<lparr>inputData = [Fin 0], currentTime = 2013\<rparr>]) listening) = [[Fin 1, Fin 1, Fin (- 1)]]"
proof -
  let ?speech = "[\<lparr>inputData = [Fin 1], currentTime = 0\<rparr>, \<lparr>inputData = [Fin 1, Fin (- 1)], currentTime = 256\<rparr>]"
  let ?silence = "[\<lparr>inputData = [Fin 0], currentTime = 512\<rparr>, \<lparr>inputData = [Fin 0], currentTime = 1757\<rparr>,
       \<lparr>inputData = [Fin 0], currentTime = 2013\<rparr>]"
  have s: "isListening listening" "\<not> isSpeaking listening" "recordingBuffer listening = []"
    by (simp_all add: listening_def)
  have a: "?speech \<noteq> []" by simp
  have b: "\<forall>e \<in> set ?speech. js_gt (rms (inputData e)) SILENCE_THRESHOLD"
    by (simp add: rms_def js_gt_def SILENCE_THRESHOLD_def round64_one round64_two)
  have c: "\<forall>e \<in> set ?silence. \<not> js_gt (rms (inputData e)) SILENCE_THRESHOLD"
    by (simp add: rms_def js_gt_def SILENCE_THRESHOLD_def round64_zero)
  have d: "\<exists>e \<in> set ?silence. currentTime e - currentTime (last ?speech) > SPEECH_TIMEOUT_MS"
    by (simp add: SPEECH_TIMEOUT_MS_def)
  from C7_one_utterance_after_timeout [OF s a b c d] show ?thesis by simp
qed

text \<open>
  The claim as stated asks only for silence that spans at least the timeout. A silent
  frame exactly \<open>SPEECH_TIMEOUT_MS\<close> after the last speech frame uploads nothing:
  the callback compares with \<open>>\<close>.
\<close>

theorem C7_counterexample:
  "js_gt (rms [Fin 1]) SILENCE_THRESHOLD \<and>
   \<not> js_gt (rms [Fin 0]) SILENCE_THRESHOLD \<and>
   1500 - 0 \<ge> SPEECH_TIMEOUT_MS \<and>
   snd (process_frames
          ([\<lparr>inputData = [Fin 1], currentTime = 0\<rparr>] @ [\<lparr>inputData = [Fin 0], currentTime = 1500\<rparr>])
          listening) = []"
  by (simp add: rms_def js_gt_def SILENCE_THRESHOLD_def SPEECH_TIMEOUT_MS_def
      onaudioprocess_def listening_def round64_zero round64_one)

subsection \<open>A frame at the threshold\<close>

text \<open>
  The rounding decides frames near the threshold. The mean square of the four samples
  below (each a 32-bit float) exceeds one ten-thousandth, yet the root mean square
  computed in doubles is exactly the threshold, so the callback takes the frame for
  silence: it is not buffered, and nothing is uploaded after the timeout.
\<close>

lemma rounding_decides_a_frame:
  "((5743909 / 2 ^ 29)\<^sup>2 + (580051 / 2 ^ 39)\<^sup>2 + (11037133 / 2 ^ 30)\<^sup>2 + (7200353 / 2 ^ 29)\<^sup>2) / 4
     > (1 / 100 :: real)\<^sup>2 \<and>
   rms [Fin (5743909 / 2 ^ 29), Fin (580051 / 2 ^ 39), Fin (11037133 / 2 ^ 30), Fin (7200353 / 2 ^ 29)]
     = SILENCE_THRESHOLD \<and>
   \<not> js_gt (rms [Fin (5743909 / 2 ^ 29), Fin (580051 / 2 ^ 39), Fin (11037133 / 2 ^ 30),
                   Fin (7200353 / 2 ^ 29)]) SILENCE_THRESHOLD"
proof -
  have p1: "round64 (32992490600281 / 288230376151711744) = Fin (32992490600281 / 288230376151711744)"
    by (rule round64_at [where e = "- 14" and m = 8446077593671936]) (simp_all add: power_int_minus)
  have s1: "round64 (32992490600281 / 288230376151711744) = Fin (32992490600281 / 288230376151711744)"
    by (rule round64_at [where e = "- 14" and m = 8446077593671936]) (simp_all add: power_int_minus)
  have p2: "round64 (336459162601 / 302231454903657293676544) = Fin (336459162601 / 302231454903657293676544)"
    by (rule round64_at [where e = "- 40" and m = 5512546920054784]) (simp_all add: power_int_minus)
  have s2: "round64 (34595134160139412457 / 302231454903657293676544) = Fin (4223038837907643 / 36893488147419103232)"
    by (rule round64_at [where e = "- 14" and m = 8446077675815286]) (simp_all add: power_int_minus)
  have p3: "round64 (121818304859689 / 1152921504606846976) = Fin (121818304859689 / 1152921504606846976)"
    by (rule round64_at [where e = "- 14" and m = 7796371511020096]) (simp_all add: power_int_minus)
  have s3: "round64 (8121224593417691 / 36893488147419103232) = Fin (8121224593417691 / 36893488147419103232)"
    by (rule round64_at [where e = "- 13" and m = 8121224593417691]) (simp_all add: power_int_minus)
  have p4: "round64 (51845083324609 / 288230376151711744) = Fin (51845083324609 / 288230376151711744)"
    by (rule round64_at [where e = "- 13" and m = 6636170665549952]) (simp_all add: power_int_minus)
  have s4: "round64 (14757395258967643 / 36893488147419103232) = Fin (3689348814741911 / 9223372036854775808)"
    by (rule round64_tie_at [where e = "- 12" and n = 7378697629483821]) (simp_all add: power_int_minus)
  have q: "round64 (3689348814741911 / 36893488147419103232) = Fin (3689348814741911 / 36893488147419103232)"
    by (rule round64_at [where e = "- 14" and m = 7378697629483822]) (simp_all add: power_int_minus)
  have r: "round64 (sqrt (3689348814741911 / 36893488147419103232)) = Fin (5764607523034235 / 576460752303423488)"
    by (rule round64_sqrt_at [where e = "- 7" and m = 5764607523034235])
       (simp_all add: power_int_minus power2_eq_square)
  have exact: "((5743909 / 2 ^ 29)\<^sup>2 + (580051 / 2 ^ 39)\<^sup>2 + (11037133 / 2 ^ 30)\<^sup>2 + (7200353 / 2 ^ 29)\<^sup>2) / 4
     > (1 / 100 :: real)\<^sup>2"
    by (simp add: power2_eq_square)
  have computed: "rms [Fin (5743909 / 2 ^ 29), Fin (580051 / 2 ^ 39), Fin (11037133 / 2 ^ 30), Fin (7200353 / 2 ^ 29)]
     = SILENCE_THRESHOLD"
    by (simp add: rms_def SILENCE_THRESHOLD_def round64_zero p1 s1 p2 s2 p3 s3 p4 s4 q r)
  from exact computed show ?thesis
    by (simp add: js_gt_def SILENCE_THRESHOLD_def)
qed

lemma frame_at_the_threshold_is_not_buffered:
  "process_frames
     [\<lparr>inputData = [Fin (5743909 / 2 ^ 29), Fin (580051 / 2 ^ 39), Fin (11037133 / 2 ^ 30),
                    Fin (7200353 / 2 ^ 29)], currentTime = 0\<rparr>,
      \<lparr>inputData = [Fin 0], currentTime = 1501\<rparr>] listening = (listening, [])"
proof -
  have quiet: "\<not> js_gt (rms [Fin 0]) SILENCE_THRESHOLD"
    by (simp add: rms_def js_gt_def SILENCE_THRESHOLD_def round64_zero)
  from rounding_decides_a_frame
  have "\<not> js_gt (rms [Fin (5743909 / 2 ^ 29), Fin (580051 / 2 ^ 39), Fin (11037133 / 2 ^ 30),
                   Fin (7200353 / 2 ^ 29)]) SILENCE_THRESHOLD"
    by blast
  with quiet show ?thesis
    by (intro process_frames_quiet) (simp add: listening_def)
qed

subsection \<open>PCM encoding\<close>

lemma pcm_loop_map:
  "i \<le> length xs \<Longrightarrow> length p = length xs \<Longrightarrow>
   pcm_loop xs i p = take i p @ map (\<lambda>x. ToInt16 (pcm_sample x)) (drop i xs)"
proof (induction xs i p rule: pcm_loop.induct)
  case (1 xs i p)
  show ?case
  proof (cases "i < length xs")
    case True
    let ?p = "p[i := ToInt16 (pcm_sample (xs ! i))]"
    have "pcm_loop xs i p = pcm_loop xs (Suc i) ?p"
      using True "1.prems" by (subst pcm_loop.simps) simp
    also have "\<dots> = take (Suc i) ?p @ map (\<lambda>x. ToInt16 (pcm_sample x)) (drop (Suc i) xs)"
      using "1.IH" True "1.prems" by simp
    also have "take (Suc i) ?p = take i p @ [ToInt16 (pcm_sample (xs ! i))]"
      using True "1.prems" by (simp add: take_Suc_conv_app_nth)
    finally have "pcm_loop xs i p =
        take i p @ ToInt16 (pcm_sample (xs ! i)) # map (\<lambda>x. ToInt16 (pcm_sample x)) (drop (Suc i) xs)"
      by simp
    moreover have "drop i xs = xs ! i # drop (Suc i) xs"
      using True by (simp add: Cons_nth_drop_Suc)
    ultimately show ?thesis by simp
  next
    case False
    with "1.prems" show ?thesis by (subst pcm_loop.simps) simp
  qed
qed

lemma float32To16BitPCM_map:
  "float32To16BitPCM xs = map (\<lambda>x. ToInt16 (pcm_sample x)) xs"
  by (simp add: float32To16BitPCM_def pcm_loop_map)

lemma pcm_sample_Fin:
  "pcm_sample (Fin r) =
     Fin (let s = max (- 1) (min 1 r) in if s < 0 then s * 32768 else s * 32767)"
  by (auto simp: pcm_sample_def Let_def min_def max_def)

lemma pcm_sample_special:
  "pcm_sample NaN = NaN" "pcm_sample PosInf = Fin 32767" "pcm_sample NegInf = Fin (- 32768)"
  by (simp_all add: pcm_sample_def)

lemma js_trunc_bounds:
  assumes lo: "- 32768 \<le> x" and hi: "x \<le> 32767"
  shows "- 32768 \<le> js_trunc x \<and> js_trunc x \<le> 32767"
proof (cases "x < 0")
  case True
  define n where "n = \<lfloor>- x\<rfloor>"
  have "n \<le> 32768" unfolding n_def using lo by (simp add: floor_le_iff)
  moreover have "0 \<le> n" unfolding n_def using True by simp
  moreover have "js_trunc x = - n" unfolding n_def using True by (simp add: js_trunc_def)
  ultimately show ?thesis by simp
next
  case False
  define n where "n = \<lfloor>x\<rfloor>"
  have "n \<le> 32767" unfolding n_def using hi by (simp add: floor_le_iff)
  moreover have "0 \<le> n" unfolding n_def using False by simp
  moreover have "js_trunc x = n" unfolding n_def using False by (simp add: js_trunc_def)
  ultimately show ?thesis by simp
qed

lemma pcm_sample_Fin_bounds:
  "\<exists>v. pcm_sample (Fin r) = Fin v \<and> - 32768 \<le> v \<and> v \<le> 32767"
proof -
  define s where "s = max (- 1) (min 1 r)"
  have range: "- 1 \<le> s" "s \<le> 1" by (simp_all add: s_def)
  have eq: "pcm_sample (Fin r) = Fin (if s < 0 then s * 32768 else s * 32767)"
    by (simp only: pcm_sample_Fin s_def Let_def)
  show ?thesis
  proof (cases "s < 0")
    case True
    then have "pcm_sample (Fin r) = Fin (s * 32768)" by (simp add: eq)
    moreover have "- 32768 \<le> s * 32768" "s * 32768 \<le> 32767" using range True by simp_all
    ultimately show ?thesis by blast
  next
    case False
    then have "pcm_sample (Fin r) = Fin (s * 32767)" by (simp add: eq)
    moreover have "- 32768 \<le> s * 32767" "s * 32767 \<le> 32767" using range False by simp_all
    ultimately show ?thesis by blast
  qed
qed

lemma integral_part_pcm_sample:
  "- 32768 \<le> integral_part (pcm_sample x) \<and> integral_part (pcm_sample x) \<le> 32767"
proof (cases x)
  case (Fin r)
  from pcm_sample_Fin_bounds [of r] obtain v
    where v: "pcm_sample (Fin r) = Fin v" "- 32768 \<le> v" "v \<le> 32767" by blast
  from js_trunc_bounds [OF v(2) v(3)] show ?thesis by (simp add: Fin v(1))
qed (simp_all add: pcm_sample_special js_trunc_def)

lemma sint_ToInt16:
  "- 32768 \<le> integral_part v \<Longrightarrow> integral_part v \<le> 32767 \<Longrightarrow> sint (ToInt16 v) = integral_part v"
  unfolding ToInt16_def by (simp add: sint_sbintrunc' signed_take_bit_int_eq_self)

text \<open>
  Claim C10. \<open>float32To16BitPCM\<close> keeps the length, and every element of its result,
  read as a signed 16-bit integer, is the integral part of the value computed for the
  sample, which lies in \<open>[-32768, 32767]\<close>: the store into the \<open>Int16Array\<close>
  never wraps around. For a finite sample the value computed is the sample clamped to
  \<open>[-1, 1]\<close>, times 32768 when negative and times 32767 otherwise.
\<close>

theorem C10_pcm_samples_fit_16_bits:
  "length (float32To16BitPCM xs) = length xs \<and>
   (\<forall>i < length xs.
      sint (float32To16BitPCM xs ! i) = integral_part (pcm_sample (xs ! i)) \<and>
      - 32768 \<le> integral_part (pcm_sample (xs ! i)) \<and>
      integral_part (pcm_sample (xs ! i)) \<le> 32767) \<and>
   pcm_sample (Fin r) =
     Fin (let s = max (- 1) (min 1 r) in if s < 0 then s * 32768 else s * 32767)"
  using integral_part_pcm_sample
  by (simp add: float32To16BitPCM_map sint_ToInt16 pcm_sample_Fin)

theorem C10_witness:
  "map sint (float32To16BitPCM [Fin (1 / 2), Fin 2, Fin (- 3), NaN]) = [16383, 32767, - 32768, 0]"
proof -
  let ?xs = "[Fin (1 / 2), Fin 2, Fin (- 3), NaN]"
  from C10_pcm_samples_fit_16_bits [of ?xs]
  have len: "length (float32To16BitPCM ?xs) = 4"
    and at: "\<forall>i < 4. sint (float32To16BitPCM ?xs ! i) = integral_part (pcm_sample (?xs ! i))"
    by simp_all
  have "sint (float32To16BitPCM ?xs ! 0) = 16383" "sint (float32To16BitPCM ?xs ! 1) = 32767"
    "sint (float32To16BitPCM ?xs ! 2) = - 32768" "sint (float32To16BitPCM ?xs ! 3) = 0"
    using at by (simp_all add: pcm_sample_def js_trunc_def)
  with len show ?thesis
    by (simp add: list_eq_iff_nth_eq nth_Cons' less_Suc_eq numeral_eq_Suc)
qed

section \<open>Properties of the backend\<close>

subsection \<open>A settled promise stays as it is\<close>

lemma settled_simps [simp]:
  "settled (ws_close args s) = settled s"
  "settled (clearTimeout s) = settled s"
  "settled (resolve x s) = (if settled s = Pending then Resolved x else settled s)"
  "settled (reject m s) = (if settled s = Pending then Rejected m else settled s)"
  by (simp_all add: ws_close_def clearTimeout_def resolve_def reject_def)

lemma final_simps [simp]:
  "final (Inl (err, s)) = s" "final (Inr s) = s"
  by (simp_all add: final_def)

lemma incoming_final: "incoming p s = final (incoming_try p (s\<lparr>hasReceivedData := True\<rparr>))"
  by (simp add: incoming_def final_def split: sum.splits)

lemma settled_configure_session: "settled (final (configure_session s)) = settled s"
  by (simp add: configure_session_def ws_send_def and_then_def)

lemma settled_incoming_try:
  "settled s \<noteq> Pending \<Longrightarrow> settled (final (incoming_try p s)) = settled s"
  by (cases p) (simp_all add: incoming_try_def settled_configure_session Let_def split: option.splits)

lemma settled_incoming_try_legacy:
  "settled s \<noteq> Pending \<Longrightarrow> settled (final (incoming_try_legacy p s)) = settled s"
  by (cases p) (auto simp: incoming_try_legacy_def configure_session_def ws_send_def and_then_def Let_def split: option.splits)

lemma incoming_legacy_settled:
  "settled s \<noteq> Pending \<Longrightarrow> settled (incoming_legacy p s) = settled s"
  using settled_incoming_try_legacy [of s p]
  by (auto simp: incoming_legacy_def split: sum.splits)

lemma step_settled: "settled s \<noteq> Pending \<Longrightarrow> settled (step v i s) = settled s"
  by (cases v; cases i)
     (simp_all add: step_def library_transition_def on_open_def on_open_legacy_def on_error_def
        on_error_legacy_def on_close_def on_close_legacy_def connectionTimeout_def timeout_legacy_def
        incoming_final settled_incoming_try incoming_legacy_settled)

lemma run_settled: "settled s \<noteq> Pending \<Longrightarrow> settled (run v inputs s) = settled s"
  by (induction inputs arbitrary: s) (simp_all add: step_settled)

lemma run_append: "run v (xs @ ys) s = run v ys (run v xs s)"
  by (induction xs arbitrary: s) simp_all

lemma response_process_audio:
  "a \<noteq> [] \<Longrightarrow> audio req = Some (Text a) \<Longrightarrow>
   response (process_audio v (Body req) inputs) =
     (case settled (processAudioWithOpenAI v (Base64Decoded a) rate inputs) of
        Pending \<Rightarrow> None
      | Resolved responseAudio \<Rightarrow> Some \<lparr>status = 200, body = AudioJson responseAudio\<rparr>
      | Rejected details \<Rightarrow>
          Some \<lparr>status = 500, body = ErrorDetailsJson (internal_error_message v) details\<rparr>)"
  by (simp add: process_audio_def route_try_def relay_audio_def processAudioWithOpenAI_def Let_def
      split: promise.splits)



text \<open>A request is answered without a relay session, or from the promise of its session.\<close>

lemma process_audio_cases:
  "(\<exists>h. \<forall>inputs. process_audio v req inputs = h) \<or>
   (\<exists>decoded. \<forall>inputs. response (process_audio v req inputs) =
      (case settled (run v inputs (new_relay decoded)) of
         Pending \<Rightarrow> None
       | Resolved responseAudio \<Rightarrow> Some \<lparr>status = 200, body = AudioJson responseAudio\<rparr>
       | Rejected details \<Rightarrow>
           Some \<lparr>status = 500, body = ErrorDetailsJson (internal_error_message v) details\<rparr>))"
proof -
  have relay: "response (case relay_audio v decoded rate inputs of
        Inl (details, opened) \<Rightarrow>
          \<lparr>response = Some \<lparr>status = 500,
                            body = ErrorDetailsJson (internal_error_message v) details\<rparr>,
           session = opened\<rparr>
      | Inr h \<Rightarrow> h) =
      (case settled (run v inputs (new_relay decoded)) of
         Pending \<Rightarrow> None
       | Resolved responseAudio \<Rightarrow> Some \<lparr>status = 200, body = AudioJson responseAudio\<rparr>
       | Rejected details \<Rightarrow>
           Some \<lparr>status = 500, body = ErrorDetailsJson (internal_error_message v) details\<rparr>)"
    for decoded rate inputs
    by (simp add: relay_audio_def processAudioWithOpenAI_def Let_def split: promise.splits)
  show ?thesis
  proof (cases req)
    case (NoBody err)
    then show ?thesis by (simp add: process_audio_def route_try_def)
  next
    case (Body b)
    show ?thesis
    proof (cases "audio b")
      case None
      with Body show ?thesis by (simp add: process_audio_def route_try_def)
    next
      case (Some av)
      show ?thesis
      proof (cases av)
        case (Text a)
        show ?thesis
        proof (cases "a = []")
          case True
          with Body Some Text show ?thesis by (simp add: process_audio_def route_try_def)
        next
          case False
          with Body Some Text have "\<forall>inputs. response (process_audio v req inputs) =
            (case settled (run v inputs (new_relay (Base64Decoded a))) of
               Pending \<Rightarrow> None
             | Resolved responseAudio \<Rightarrow> Some \<lparr>status = 200, body = AudioJson responseAudio\<rparr>
             | Rejected details \<Rightarrow>
                 Some \<lparr>status = 500, body = ErrorDetailsJson (internal_error_message v) details\<rparr>)"
            by (simp add: process_audio_def route_try_def relay)
          then show ?thesis by blast
        qed
      next
        case FalsyValue
        with Body Some show ?thesis by (simp add: process_audio_def route_try_def)
      next
        case (TruthyValue outcome)
        show ?thesis
        proof (cases outcome)
          case (Inl err)
          with Body Some TruthyValue show ?thesis by (simp add: process_audio_def route_try_def)
        next
          case (Inr decoded)
          with Body Some TruthyValue have "\<forall>inputs. response (process_audio v req inputs) =
            (case settled (run v inputs (new_relay decoded)) of
               Pending \<Rightarrow> None
             | Resolved responseAudio \<Rightarrow> Some \<lparr>status = 200, body = AudioJson responseAudio\<rparr>
             | Rejected details \<Rightarrow>
                 Some \<lparr>status = 500, body = ErrorDetailsJson (internal_error_message v) details\<rparr>)"
            by (simp add: process_audio_def route_try_def relay)
          then show ?thesis by blast
        qed
      qed
    qed
  qed
qed

text \<open>
  Claim C4. Once the promise of a relay session is settled (resolved after
  \<open>response.done\<close>, or rejected), no later input changes it: not the timer, not a
  \<open>close\<close> or \<open>error\<close> of the socket, not a further event. Once the route has
  answered, more inputs to the session leave the answer as it is. This holds in both
  versions of the server.
\<close>

theorem C4_settled_result_never_changes:
  "(settled s \<noteq> Pending \<longrightarrow> settled (run v later s) = settled s) \<and>
   (response (process_audio v req inputs) \<noteq> None \<longrightarrow>
    response (process_audio v req (inputs @ later)) = response (process_audio v req inputs))"
proof (intro conjI impI)
  assume "settled s \<noteq> Pending"
  then show "settled (run v later s) = settled s" by (rule run_settled)
next
  assume answered: "response (process_audio v req inputs) \<noteq> None"
  from process_audio_cases [of v req]
  show "response (process_audio v req (inputs @ later)) = response (process_audio v req inputs)"
  proof
    assume "\<exists>h. \<forall>inputs. process_audio v req inputs = h"
    then show ?thesis by metis
  next
    assume "\<exists>decoded. \<forall>inputs. response (process_audio v req inputs) =
      (case settled (run v inputs (new_relay decoded)) of
         Pending \<Rightarrow> None
       | Resolved responseAudio \<Rightarrow> Some \<lparr>status = 200, body = AudioJson responseAudio\<rparr>
       | Rejected details \<Rightarrow>
           Some \<lparr>status = 500, body = ErrorDetailsJson (internal_error_message v) details\<rparr>)"
    then obtain decoded where r: "\<And>inputs. response (process_audio v req inputs) =
      (case settled (run v inputs (new_relay decoded)) of
         Pending \<Rightarrow> None
       | Resolved responseAudio \<Rightarrow> Some \<lparr>status = 200, body = AudioJson responseAudio\<rparr>
       | Rejected details \<Rightarrow>
           Some \<lparr>status = 500, body = ErrorDetailsJson (internal_error_message v) details\<rparr>)"
      by blast
    let ?s = "run v inputs (new_relay decoded)"
    from answered have "settled ?s \<noteq> Pending" by (auto simp: r)
    then have "settled (run v later ?s) = settled ?s" by (rule run_settled)
    then show ?thesis by (simp add: r run_append)
  qed
qed

theorem C4_witness:
  "settled (run Current [TimerExpired, WsClose, WsError ''socket hang up'',
       WsMessage (Parsed \<lparr>ev_type = ''error'', delta = None, message = Some ''late'', reason = None\<rparr>)]
     ((new_relay (Base64Decoded ''UklGRg==''))\<lparr>settled := Resolved ''AAABBB''\<rparr>)) = Resolved ''AAABBB'' \<and>
   response (process_audio Current (Body \<lparr>audio = Some (Text ''UklGRg==''), sampleRate = None\<rparr>)
     ([WsOpen, WsMessage (Parsed \<lparr>ev_type = ''response.done'', delta = None, message = None, reason = None\<rparr>)] @
      [WsError ''socket hang up'', WsClose, TimerExpired])) =
     Some \<lparr>status = 200, body = AudioJson ''''\<rparr>"
proof -
  let ?req = "Body \<lparr>audio = Some (Text ''UklGRg==''), sampleRate = None\<rparr>"
  let ?inputs = "[WsOpen, WsMessage (Parsed \<lparr>ev_type = ''response.done'', delta = None, message = None, reason = None\<rparr>)]"
  have r: "response (process_audio Current ?req ?inputs) = Some \<lparr>status = 200, body = AudioJson ''''\<rparr>"
    by (simp add: process_audio_def route_try_def relay_audio_def processAudioWithOpenAI_def new_relay_def step_def
        library_transition_def on_open_def clearTimeout_def incoming_def incoming_try_def
        ws_close_def resolve_def join_def)
  from C4_settled_result_never_changes
    [where s = "(new_relay (Base64Decoded ''UklGRg==''))\<lparr>settled := Resolved ''AAABBB''\<rparr>"
       and v = Current
       and later = "[TimerExpired, WsClose, WsError ''socket hang up'',
          WsMessage (Parsed \<lparr>ev_type = ''error'', delta = None, message = Some ''late'', reason = None\<rparr>)]"]
  have one: "settled (run Current [TimerExpired, WsClose, WsError ''socket hang up'',
       WsMessage (Parsed \<lparr>ev_type = ''error'', delta = None, message = Some ''late'', reason = None\<rparr>)]
     ((new_relay (Base64Decoded ''UklGRg==''))\<lparr>settled := Resolved ''AAABBB''\<rparr>)) = Resolved ''AAABBB''"
    by simp
  from C4_settled_result_never_changes
    [where v = Current and later = "[WsError ''socket hang up'', WsClose, TimerExpired]"
       and req = ?req and inputs = ?inputs] r
  have two: "response (process_audio Current ?req (?inputs @ [WsError ''socket hang up'', WsClose, TimerExpired])) =
     Some \<lparr>status = 200, body = AudioJson ''''\<rparr>"
    by simp
  from one two show ?thesis by blast
qed

subsection \<open>The response is the concatenation of the fragments\<close>

lemma chunks_simps [simp]:
  "responseAudioChunks (ws_close args s) = responseAudioChunks s"
  "responseAudioChunks (clearTimeout s) = responseAudioChunks s"
  "responseAudioChunks (resolve x s) = responseAudioChunks s"
  "responseAudioChunks (reject m s) = responseAudioChunks s"
  by (simp_all add: ws_close_def clearTimeout_def resolve_def reject_def)

lemma chunks_configure_session:
  "responseAudioChunks (final (configure_session s)) = responseAudioChunks s"
  by (simp add: configure_session_def ws_send_def and_then_def)

lemma chunks_incoming_try:
  "join (responseAudioChunks (final (incoming_try p s))) =
     join (responseAudioChunks s) @ concat (audio_deltas [WsMessage p])"
  by (cases p)
     (simp_all add: incoming_try_def chunks_configure_session Let_def join_def split: option.splits)

lemma chunks_incoming_try_legacy:
  "join (responseAudioChunks (final (incoming_try_legacy p s))) =
     join (responseAudioChunks s) @ concat (audio_deltas [WsMessage p])"
  by (cases p)
     (auto simp: incoming_try_legacy_def configure_session_def ws_send_def and_then_def Let_def
        join_def split: option.splits)

lemma chunks_incoming_legacy:
  "join (responseAudioChunks (incoming_legacy p s)) =
     join (responseAudioChunks s) @ concat (audio_deltas [WsMessage p])"
  using chunks_incoming_try_legacy [of p s]
  by (auto simp: incoming_legacy_def split: sum.splits)

lemma chunks_step:
  "join (responseAudioChunks (step v i s)) =
     join (responseAudioChunks s) @ concat (audio_deltas [i])"
  by (cases v; cases i)
     (simp_all add: step_def library_transition_def on_open_def on_open_legacy_def on_error_def
        on_error_legacy_def on_close_def on_close_legacy_def connectionTimeout_def timeout_legacy_def
        incoming_final chunks_incoming_try chunks_incoming_legacy)

lemma audio_deltas_Cons: "audio_deltas (i # inputs) = audio_deltas [i] @ audio_deltas inputs"
proof (cases i)
  case (WsMessage p)
  then show ?thesis by (cases p) simp_all
qed simp_all

lemma chunks_run:
  "join (responseAudioChunks (run v inputs s)) =
     join (responseAudioChunks s) @ concat (audio_deltas inputs)"
proof (induction inputs arbitrary: s)
  case Nil
  show ?case by simp
next
  case (Cons i inputs)
  have "join (responseAudioChunks (run v (i # inputs) s)) =
      join (responseAudioChunks (step v i s)) @ concat (audio_deltas inputs)"
    by (simp add: Cons.IH)
  also have "\<dots> = join (responseAudioChunks s) @ concat (audio_deltas [i]) @ concat (audio_deltas inputs)"
    by (simp add: chunks_step)
  also have "concat (audio_deltas [i]) @ concat (audio_deltas inputs) = concat (audio_deltas (i # inputs))"
    by (subst (2) audio_deltas_Cons) simp
  finally show ?case .
qed

lemma done_step:
  assumes "ev_type ev = ''response.done''" "settled s = Pending"
  shows "settled (step v (WsMessage (Parsed ev)) s) = Resolved (join (responseAudioChunks s))"
proof (cases v)
  case Current
  then show ?thesis using assms
    by (simp add: step_def library_transition_def incoming_final incoming_try_def Let_def)
next
  case Legacy
  then show ?thesis using assms
    by (simp add: step_def library_transition_def incoming_legacy_def incoming_try_legacy_def
        and_then_def Let_def)
qed

lemma relay_resolves:
  assumes "settled (run v inputs (new_relay b)) = Pending" "ev_type ev = ''response.done''"
  shows "settled (run v (inputs @ WsMessage (Parsed ev) # later) (new_relay b)) =
           Resolved (concat (audio_deltas inputs))"
proof -
  let ?s = "run v inputs (new_relay b)"
  have "join (responseAudioChunks ?s) = concat (audio_deltas inputs)"
    using chunks_run [of v inputs "new_relay b"] by (simp add: new_relay_def join_def)
  with done_step [OF assms(2) assms(1)]
  have "settled (step v (WsMessage (Parsed ev)) ?s) = Resolved (concat (audio_deltas inputs))"
    by simp
  then have "settled (run v later (step v (WsMessage (Parsed ev)) ?s)) = Resolved (concat (audio_deltas inputs))"
    by (simp add: run_settled)
  then show ?thesis by (simp add: run_append)
qed

lemma audio_delta_step:
  "settled (step v (audio_delta f) s) = settled s"
  by (cases v)
     (simp_all add: audio_delta_def step_def library_transition_def incoming_def incoming_try_def
        incoming_legacy_def incoming_try_legacy_def and_then_def)

lemma audio_delta_run: "settled (run v (map audio_delta fs) s) = settled s"
  by (induction fs arbitrary: s) (simp_all add: audio_delta_step)

lemma audio_deltas_map: "audio_deltas (map audio_delta fs @ rest) = fs @ audio_deltas rest"
  by (induction fs) (simp_all add: audio_delta_def)

lemma session_created_pending:
  "settled (run v [WsOpen, WsMessage (Parsed (plain_event ''session.created''))] (new_relay b)) = Pending"
  by (cases v)
     (simp_all add: plain_event_def step_def library_transition_def on_open_def on_open_legacy_def
        clearTimeout_def new_relay_def incoming_def incoming_try_def incoming_legacy_def
        incoming_try_legacy_def configure_session_def ws_send_def and_then_def)

lemma streamed_fragments:
  "settled (run v (WsOpen # WsMessage (Parsed (plain_event ''session.created'')) # map audio_delta fs @
       [WsMessage (Parsed (plain_event ''response.done''))]) (new_relay b)) = Resolved (concat fs)"
proof -
  let ?pre = "[WsOpen, WsMessage (Parsed (plain_event ''session.created''))] @ map audio_delta fs"
  have "settled (run v ?pre (new_relay b)) = Pending"
    using session_created_pending [of v b] by (simp add: run_append audio_delta_run)
  moreover have "ev_type (plain_event ''response.done'') = ''response.done''"
    by (simp add: plain_event_def)
  ultimately have "settled (run v (?pre @ WsMessage (Parsed (plain_event ''response.done'')) # []) (new_relay b)) =
      Resolved (concat (audio_deltas ?pre))"
    by (rule relay_resolves)
  moreover have "audio_deltas ?pre = fs"
    using audio_deltas_map [of fs "[]"] by (simp add: plain_event_def)
  ultimately have "settled (run v (?pre @ WsMessage (Parsed (plain_event ''response.done'')) # []) (new_relay b)) =
      Resolved (concat fs)"
    by (simp only:)
  then show ?thesis by (simp only: append_Cons append_Nil)
qed

text \<open>
  Claim C2. If the promise is still pending when \<open>response.done\<close> arrives, it is
  resolved with the concatenation, in arrival order, of the fragments of all
  \<open>response.audio.delta\<close> events received before, whatever other inputs came in
  between and whatever comes later, and the route answers 200 with that text as
  \<open>audio\<close>. In particular, after \<open>open\<close> and \<open>session.created\<close>, the
  fragments \<open>f1, ..., fn\<close> followed by \<open>response.done\<close> resolve the promise with
  \<open>f1 + ... + fn\<close>. This holds in both versions of the server.
\<close>

theorem C2_fragments_concatenated_in_order:
  "(settled (processAudioWithOpenAI v b rate inputs) = Pending \<and> ev_type ev = ''response.done'' \<longrightarrow>
      settled (processAudioWithOpenAI v b rate (inputs @ WsMessage (Parsed ev) # later)) =
        Resolved (concat (audio_deltas inputs)) \<and>
      (audio req = Some (Text a) \<and> a \<noteq> [] \<and> b = Base64Decoded a \<longrightarrow>
       response (process_audio v (Body req) (inputs @ WsMessage (Parsed ev) # later)) =
         Some \<lparr>status = 200, body = AudioJson (concat (audio_deltas inputs))\<rparr>)) \<and>
   settled (processAudioWithOpenAI v b rate
      (WsOpen # WsMessage (Parsed (plain_event ''session.created'')) # map audio_delta fs @
       [WsMessage (Parsed (plain_event ''response.done''))])) = Resolved (concat fs)"
proof (intro conjI impI)
  assume "settled (processAudioWithOpenAI v b rate inputs) = Pending \<and> ev_type ev = ''response.done''"
  then show r: "settled (processAudioWithOpenAI v b rate (inputs @ WsMessage (Parsed ev) # later)) =
           Resolved (concat (audio_deltas inputs))"
    unfolding processAudioWithOpenAI_def by (intro relay_resolves) simp_all
  assume "audio req = Some (Text a) \<and> a \<noteq> [] \<and> b = Base64Decoded a"
  with r show "response (process_audio v (Body req) (inputs @ WsMessage (Parsed ev) # later)) =
         Some \<lparr>status = 200, body = AudioJson (concat (audio_deltas inputs))\<rparr>"
    by (auto simp: response_process_audio [where rate = rate])
next
  show "settled (processAudioWithOpenAI v b rate
      (WsOpen # WsMessage (Parsed (plain_event ''session.created'')) # map audio_delta fs @
       [WsMessage (Parsed (plain_event ''response.done''))])) = Resolved (concat fs)"
    unfolding processAudioWithOpenAI_def by (rule streamed_fragments)
qed

theorem C2_witness:
  "response (process_audio Current (Body \<lparr>audio = Some (Text ''UklGRg==''), sampleRate = Some 16000\<rparr>)
     ([WsOpen,
       WsMessage (Parsed \<lparr>ev_type = ''session.created'', delta = None, message = None, reason = None\<rparr>),
       WsMessage (Parsed \<lparr>ev_type = ''response.audio.delta'', delta = Some ''AAA'', message = None, reason = None\<rparr>),
       WsMessage (Parsed \<lparr>ev_type = ''response.audio.delta'', delta = Some ''BBB'', message = None, reason = None\<rparr>)] @
      WsMessage (Parsed \<lparr>ev_type = ''response.done'', delta = None, message = None, reason = None\<rparr>) # [WsClose])) =
   Some \<lparr>status = 200, body = AudioJson ''AAABBB''\<rparr>"
proof -
  let ?inputs = "[WsOpen,
       WsMessage (Parsed \<lparr>ev_type = ''session.created'', delta = None, message = None, reason = None\<rparr>),
       WsMessage (Parsed \<lparr>ev_type = ''response.audio.delta'', delta = Some ''AAA'', message = None, reason = None\<rparr>),
       WsMessage (Parsed \<lparr>ev_type = ''response.audio.delta'', delta = Some ''BBB'', message = None, reason = None\<rparr>)]"
  let ?done = "\<lparr>ev_type = ''response.done'', delta = None, message = None, reason = None\<rparr>"
  have p: "settled (processAudioWithOpenAI Current (Base64Decoded ''UklGRg=='') 16000 ?inputs) = Pending"
    by (simp add: processAudioWithOpenAI_def new_relay_def step_def library_transition_def on_open_def
        clearTimeout_def incoming_def incoming_try_def configure_session_def ws_send_def and_then_def)
  have d: "ev_type ?done = ''response.done''" by simp
  from C2_fragments_concatenated_in_order
    [where v = Current and b = "Base64Decoded ''UklGRg==''" and rate = 16000 and inputs = ?inputs
       and ev = ?done and later = "[WsClose]" and a = "''UklGRg==''"
       and req = "\<lparr>audio = Some (Text ''UklGRg==''), sampleRate = Some 16000\<rparr>"] p d
  show ?thesis by simp
qed

subsection \<open>The configuration is sent at most once\<close>

lemma sent_simps [simp]:
  "sent (ws_close args s) = sent s"
  "sent (clearTimeout s) = sent s"
  "sent (resolve x s) = sent s"
  "sent (reject m s) = sent s"
  "isSessionConfigured (ws_close args s) = isSessionConfigured s"
  "isSessionConfigured (clearTimeout s) = isSessionConfigured s"
  "isSessionConfigured (resolve x s) = isSessionConfigured s"
  "isSessionConfigured (reject m s) = isSessionConfigured s"
  "audioBuffer (ws_close args s) = audioBuffer s"
  "audioBuffer (clearTimeout s) = audioBuffer s"
  "audioBuffer (resolve x s) = audioBuffer s"
  "audioBuffer (reject m s) = audioBuffer s"
  by (simp_all add: ws_close_def clearTimeout_def resolve_def reject_def)

text \<open>Nothing has been sent, or the flag is set and exactly the three messages were sent.\<close>

lemma configure_session_sent:
  "sent s = [] \<Longrightarrow>
   isSessionConfigured (final (configure_session s)) \<and>
   audioBuffer (final (configure_session s)) = audioBuffer s \<and>
   (sent (final (configure_session s)) = [] \<or>
    sent (final (configure_session s)) =
      [SessionUpdate, ConversationItemCreate (audioBuffer s), ResponseCreate])"
  by (simp add: configure_session_def ws_send_def and_then_def)

lemma incoming_try_sent:
  assumes "audioBuffer s = b"
    and "sent s = [] \<or> (isSessionConfigured s \<and> sent s = [SessionUpdate, ConversationItemCreate b, ResponseCreate])"
  shows "audioBuffer (final (incoming_try p s)) = b \<and>
    (sent (final (incoming_try p s)) = [] \<or>
     (isSessionConfigured (final (incoming_try p s)) \<and>
      sent (final (incoming_try p s)) = [SessionUpdate, ConversationItemCreate b, ResponseCreate]))"
proof (cases p)
  case (Unparseable err)
  then show ?thesis using assms by (simp add: incoming_try_def)
next
  case (Parsed ev)
  show ?thesis
  proof (cases "ev_type ev = ''session.created'' \<and> \<not> isSessionConfigured s")
    case True
    with assms have "sent s = []" by auto
    from configure_session_sent [OF this] True Parsed assms(1) show ?thesis
      by (auto simp: incoming_try_def)
  next
    case False
    with Parsed assms show ?thesis
      by (auto simp: incoming_try_def Let_def split: option.splits)
  qed
qed

lemma incoming_try_legacy_sent:
  assumes "audioBuffer s = b"
    and "sent s = [] \<or> (isSessionConfigured s \<and> sent s = [SessionUpdate, ConversationItemCreate b, ResponseCreate])"
  shows "audioBuffer (final (incoming_try_legacy p s)) = b \<and>
    (sent (final (incoming_try_legacy p s)) = [] \<or>
     (isSessionConfigured (final (incoming_try_legacy p s)) \<and>
      sent (final (incoming_try_legacy p s)) = [SessionUpdate, ConversationItemCreate b, ResponseCreate]))"
proof (cases p)
  case (Unparseable err)
  then show ?thesis using assms by (simp add: incoming_try_legacy_def)
next
  case (Parsed ev)
  show ?thesis
  proof (cases "ev_type ev = ''session.created'' \<and> \<not> isSessionConfigured s")
    case True
    with assms have "sent s = []" by auto
    with True Parsed assms(1) show ?thesis
      by (auto simp: incoming_try_legacy_def configure_session_def ws_send_def and_then_def Let_def)
  next
    case False
    with Parsed assms show ?thesis
      by (auto simp: incoming_try_legacy_def and_then_def Let_def)
  qed
qed

lemma incoming_legacy_final:
  "sent (incoming_legacy p s) = sent (final (incoming_try_legacy p s))"
  "isSessionConfigured (incoming_legacy p s) = isSessionConfigured (final (incoming_try_legacy p s))"
  "audioBuffer (incoming_legacy p s) = audioBuffer (final (incoming_try_legacy p s))"
  by (auto simp: incoming_legacy_def split: sum.splits)

lemma step_sent:
  assumes "audioBuffer s = b"
    and "sent s = [] \<or> (isSessionConfigured s \<and> sent s = [SessionUpdate, ConversationItemCreate b, ResponseCreate])"
  shows "audioBuffer (step v i s) = b \<and>
    (sent (step v i s) = [] \<or>
     (isSessionConfigured (step v i s) \<and>
      sent (step v i s) = [SessionUpdate, ConversationItemCreate b, ResponseCreate]))"
proof (cases i)
  case (WsMessage p)
  show ?thesis
  proof (cases v)
    case Current
    from incoming_try_sent [of "s\<lparr>hasReceivedData := True\<rparr>" b p] assms
    show ?thesis unfolding WsMessage Current
      by (simp add: step_def library_transition_def incoming_final)
  next
    case Legacy
    from incoming_try_legacy_sent [of s b p] assms
    show ?thesis unfolding WsMessage Legacy
      by (simp add: step_def library_transition_def incoming_legacy_final)
  qed
qed (use assms in \<open>cases v; simp add: step_def library_transition_def on_open_def on_open_legacy_def
        on_error_def on_error_legacy_def on_close_def on_close_legacy_def connectionTimeout_def
        timeout_legacy_def\<close>)+

lemma run_sent:
  assumes "audioBuffer s = b"
    and "sent s = [] \<or> (isSessionConfigured s \<and> sent s = [SessionUpdate, ConversationItemCreate b, ResponseCreate])"
  shows "sent (run v inputs s) = [] \<or>
         sent (run v inputs s) = [SessionUpdate, ConversationItemCreate b, ResponseCreate]"
  using assms
proof (induction inputs arbitrary: s)
  case Nil
  then show ?case by auto
next
  case (Cons i inputs)
  from step_sent [OF Cons.prems, of v i] show ?case
    by (simp only: run.simps) (intro Cons.IH, simp_all)
qed

lemma step_configured:
  assumes "isSessionConfigured s"
  shows "isSessionConfigured (step v i s) \<and> sent (step v i s) = sent s"
proof (cases i)
  case (WsMessage p)
  show ?thesis
  proof (cases p)
    case (Unparseable err)
    with WsMessage assms show ?thesis
      by (cases v) (simp_all add: step_def library_transition_def incoming_def incoming_try_def
          incoming_legacy_def incoming_try_legacy_def)
  next
    case (Parsed ev)
    with WsMessage assms show ?thesis
      by (cases v) (auto simp: step_def library_transition_def incoming_def incoming_try_def
          incoming_legacy_def incoming_try_legacy_def and_then_def Let_def split: option.splits)
  qed
qed (use assms in \<open>cases v; simp add: step_def library_transition_def on_open_def on_open_legacy_def
        on_error_def on_error_legacy_def on_close_def on_close_legacy_def connectionTimeout_def
        timeout_legacy_def\<close>)+

lemma run_configured:
  "isSessionConfigured s \<Longrightarrow> sent (run v inputs s) = sent s"
proof (induction inputs arbitrary: s)
  case Nil
  show ?case by simp
next
  case (Cons i inputs)
  from step_configured [OF Cons.prems, of v i] Cons.IH [of "step v i s"]
  show ?case by simp
qed

lemma first_session_created:
  assumes "ev_type ev = ''session.created''"
  shows "isSessionConfigured (run v [WsOpen, WsMessage (Parsed ev)] (new_relay b)) \<and>
         sent (run v [WsOpen, WsMessage (Parsed ev)] (new_relay b)) =
           [SessionUpdate, ConversationItemCreate b, ResponseCreate]"
  using assms
  by (cases v)
     (simp_all add: step_def library_transition_def on_open_def on_open_legacy_def clearTimeout_def
        new_relay_def incoming_def incoming_try_def incoming_legacy_def incoming_try_legacy_def
        configure_session_def ws_send_def and_then_def)

text \<open>
  Claim C3. Whatever the sequence of inputs to a session, duplicates of
  \<open>session.created\<close> included, the calls of \<open>ws.send\<close> are either none or
  exactly \<open>session.update\<close>, \<open>conversation.item.create\<close>, \<open>response.create\<close>
  in this order; and once \<open>session.created\<close> has arrived on the open socket, the
  three messages have been sent and no later input adds another. This holds in both
  versions of the server.
\<close>

theorem C3_configuration_sent_at_most_once:
  "(sent (processAudioWithOpenAI v b rate inputs) = [] \<or>
    sent (processAudioWithOpenAI v b rate inputs) =
      [SessionUpdate, ConversationItemCreate b, ResponseCreate]) \<and>
   (ev_type ev = ''session.created'' \<longrightarrow>
    sent (processAudioWithOpenAI v b rate (WsOpen # WsMessage (Parsed ev) # inputs)) =
      [SessionUpdate, ConversationItemCreate b, ResponseCreate])"
proof (intro conjI impI)
  show "sent (processAudioWithOpenAI v b rate inputs) = [] \<or>
    sent (processAudioWithOpenAI v b rate inputs) =
      [SessionUpdate, ConversationItemCreate b, ResponseCreate]"
    unfolding processAudioWithOpenAI_def
    by (rule run_sent) (simp_all add: new_relay_def)
next
  assume created: "ev_type ev = ''session.created''"
  let ?s = "run v [WsOpen, WsMessage (Parsed ev)] (new_relay b)"
  have "run v (WsOpen # WsMessage (Parsed ev) # inputs) (new_relay b) = run v inputs ?s"
    by simp
  moreover have "sent (run v inputs ?s) = sent ?s"
    using first_session_created [OF created] by (intro run_configured) blast
  ultimately show "sent (processAudioWithOpenAI v b rate (WsOpen # WsMessage (Parsed ev) # inputs)) =
      [SessionUpdate, ConversationItemCreate b, ResponseCreate]"
    using first_session_created [OF created, of v b]
    by (simp only: processAudioWithOpenAI_def)
qed

theorem C3_witness:
  "sent (processAudioWithOpenAI Current (Base64Decoded ''AAAA'') 16000
     [WsOpen,
      WsMessage (Parsed \<lparr>ev_type = ''session.created'', delta = None, message = None, reason = None\<rparr>),
      WsMessage (Parsed \<lparr>ev_type = ''session.created'', delta = None, message = None, reason = None\<rparr>),
      WsMessage (Parsed \<lparr>ev_type = ''response.done'', delta = None, message = None, reason = None\<rparr>)]) =
     [SessionUpdate, ConversationItemCreate (Base64Decoded ''AAAA''), ResponseCreate]"
  using C3_configuration_sent_at_most_once
    [where v = Current and b = "Base64Decoded ''AAAA''" and rate = 16000
       and inputs = "[WsMessage (Parsed \<lparr>ev_type = ''session.created'', delta = None, message = None, reason = None\<rparr>),
          WsMessage (Parsed \<lparr>ev_type = ''response.done'', delta = None, message = None, reason = None\<rparr>)]"
       and ev = "\<lparr>ev_type = ''session.created'', delta = None, message = None, reason = None\<rparr>"]
  by simp

subsection \<open>Error events of the service\<close>

lemma error_step:
  assumes "ev_type ev = ''error'' \<or> ev_type ev = ''session.error''" "settled s = Pending"
  shows "settled (step Current (WsMessage (Parsed ev)) s) =
           Rejected (''OpenAI API Error: '' @ upstream_message ev)"
    and "readyState s = OPEN \<Longrightarrow>
           closeCalls (step Current (WsMessage (Parsed ev)) s) =
             closeCalls s @ [CodeReason 1011 ''API Error'']"
  using assms
  by (auto simp: step_def library_transition_def incoming_def incoming_try_def Let_def
      ws_close_def reject_def)

text \<open>
  Claim C5 (current version). When an event of type \<open>error\<close> or
  \<open>session.error\<close> arrives while the promise is pending, the promise is rejected
  with \<open>OpenAI API Error: \<close> followed by the event's message (its \<open>message\<close>
  if that is a non-empty string), the route answers 500 with that text as
  \<open>details\<close>, whatever comes later, and on an open socket \<open>ws.close\<close> is called
  with the code 1011, which is not the code 1000 of a normal closure.
\<close>

theorem C5_error_event_rejects_with_upstream_message:
  assumes "ev_type ev = ''error'' \<or> ev_type ev = ''session.error''"
    and "settled (processAudioWithOpenAI Current b rate inputs) = Pending"
  shows "settled (processAudioWithOpenAI Current b rate (inputs @ WsMessage (Parsed ev) # later)) =
           Rejected (''OpenAI API Error: '' @ upstream_message ev) \<and>
         (audio req = Some (Text a) \<and> a \<noteq> [] \<and> b = Base64Decoded a \<longrightarrow>
          response (process_audio Current (Body req) (inputs @ WsMessage (Parsed ev) # later)) =
            Some \<lparr>status = 500,
                  body = ErrorDetailsJson (internal_error_message Current)
                           (''OpenAI API Error: '' @ upstream_message ev)\<rparr>) \<and>
         (message ev = Some m \<and> m \<noteq> [] \<longrightarrow> upstream_message ev = m) \<and>
         (readyState (processAudioWithOpenAI Current b rate inputs) = OPEN \<longrightarrow>
          closeCalls (processAudioWithOpenAI Current b rate (inputs @ [WsMessage (Parsed ev)])) =
            closeCalls (processAudioWithOpenAI Current b rate inputs) @ [CodeReason 1011 ''API Error''])"
proof -
  let ?s = "run Current inputs (new_relay b)"
  from assms have pending: "settled ?s = Pending" by (simp add: processAudioWithOpenAI_def)
  have "settled (step Current (WsMessage (Parsed ev)) ?s) =
      Rejected (''OpenAI API Error: '' @ upstream_message ev)"
    using assms(1) pending by (rule error_step(1))
  then have "settled (run Current later (step Current (WsMessage (Parsed ev)) ?s)) =
      Rejected (''OpenAI API Error: '' @ upstream_message ev)"
    by (simp add: run_settled)
  then have r: "settled (processAudioWithOpenAI Current b rate (inputs @ WsMessage (Parsed ev) # later)) =
      Rejected (''OpenAI API Error: '' @ upstream_message ev)"
    by (simp add: processAudioWithOpenAI_def run_append)
  have c: "readyState ?s = OPEN \<Longrightarrow>
      closeCalls (run Current (inputs @ [WsMessage (Parsed ev)]) (new_relay b)) =
        closeCalls ?s @ [CodeReason 1011 ''API Error'']"
    using error_step(2) [OF assms(1) pending] by (simp add: run_append)
  have m: "message ev = Some m \<and> m \<noteq> [] \<longrightarrow> upstream_message ev = m"
    by (auto simp: upstream_message_def)
  from r c m show ?thesis
    by (auto simp: response_process_audio [where rate = rate] processAudioWithOpenAI_def)
qed

theorem C5_witness:
  "response (process_audio Current (Body \<lparr>audio = Some (Text ''UklGRg==''), sampleRate = Some 16000\<rparr>)
     ([WsOpen,
       WsMessage (Parsed \<lparr>ev_type = ''session.created'', delta = None, message = None, reason = None\<rparr>)] @
      WsMessage (Parsed \<lparr>ev_type = ''error'', delta = None, message = Some ''rate_limited'', reason = None\<rparr>)
        # [WsClose])) =
     Some \<lparr>status = 500,
           body = ErrorDetailsJson (internal_error_message Current) ''OpenAI API Error: rate_limited''\<rparr> \<and>
   closeCalls (processAudioWithOpenAI Current (Base64Decoded ''UklGRg=='') 16000
     ([WsOpen,
       WsMessage (Parsed \<lparr>ev_type = ''session.created'', delta = None, message = None, reason = None\<rparr>)] @
      [WsMessage (Parsed \<lparr>ev_type = ''error'', delta = None, message = Some ''rate_limited'', reason = None\<rparr>)])) =
     [CodeReason 1011 ''API Error'']"
proof -
  let ?inputs = "[WsOpen,
       WsMessage (Parsed \<lparr>ev_type = ''session.created'', delta = None, message = None, reason = None\<rparr>)]"
  let ?ev = "\<lparr>ev_type = ''error'', delta = None, message = Some ''rate_limited'', reason = None\<rparr>"
  let ?s = "processAudioWithOpenAI Current (Base64Decoded ''UklGRg=='') 16000 ?inputs"
  have e: "ev_type ?ev = ''error'' \<or> ev_type ?ev = ''session.error''" by simp
  have s: "settled ?s = Pending" "readyState ?s = OPEN" "closeCalls ?s = []"
    by (simp_all add: processAudioWithOpenAI_def new_relay_def step_def library_transition_def
        on_open_def clearTimeout_def incoming_def incoming_try_def configure_session_def ws_send_def
        and_then_def)
  from C5_error_event_rejects_with_upstream_message
    [OF e s(1), where later = "[WsClose]" and a = "''UklGRg==''" and m = "''rate_limited''"
       and req = "\<lparr>audio = Some (Text ''UklGRg==''), sampleRate = Some 16000\<rparr>"] s(2) s(3)
  show ?thesis by simp
qed

subsection \<open>The answers of the route\<close>









subsection \<open>The 30 second timer\<close>

lemma run_timer_disarmed:
  "\<not> timerArmed s \<Longrightarrow> run v (replicate n TimerExpired) s = s"
  by (induction n) (simp_all add: step_def library_transition_def)

text \<open>
  Claim C1 does not hold of the current version: its \<open>open\<close> handler clears the
  timer, so on a socket that has opened and then stays silent the timer never runs, the
  promise stays pending however long one waits, and the route never answers. (The
  callback of the timer tests for an open socket without received data, but it is never
  called in that state.)
\<close>

theorem C1_silent_open_session_is_never_settled:
  "settled (processAudioWithOpenAI Current b rate (WsOpen # replicate n TimerExpired)) = Pending \<and>
   response (process_audio Current (Body \<lparr>audio = Some (Text ''UklGRg==''), sampleRate = Some 16000\<rparr>)
     (WsOpen # replicate n TimerExpired)) = None"
proof -
  have "run Current (WsOpen # replicate n TimerExpired) (new_relay c) =
      (new_relay c)\<lparr>readyState := OPEN, timerArmed := False\<rparr>" for c
    by (simp add: run_timer_disarmed step_def library_transition_def on_open_def clearTimeout_def)
  then show ?thesis
    by (simp add: processAudioWithOpenAI_def process_audio_def route_try_def relay_audio_def new_relay_def)
qed

text \<open>
  While the socket is still connecting the timer of the current version does reject,
  and the route answers 500, with the timeout message when the library reports the
  aborted handshake only after the callback has returned. The earlier version is the
  other way round: its timer rejects on an open socket and does nothing on a connecting
  one.
\<close>

lemma watchdog_while_connecting:
  "response (process_audio Current (Body \<lparr>audio = Some (Text ''UklGRg==''), sampleRate = Some 16000\<rparr>) [TimerExpired]) =
     Some \<lparr>status = 500,
           body = ErrorDetailsJson (internal_error_message Current)
             ''Timeout: OpenAI Realtime API connection or initial data timeout''\<rparr>"
  by (simp add: process_audio_def route_try_def relay_audio_def processAudioWithOpenAI_def new_relay_def step_def
      library_transition_def connectionTimeout_def ws_close_def reject_def)

lemma legacy_watchdog_on_silent_open_socket:
  "settled (processAudioWithOpenAI Legacy b rate [WsOpen, TimerExpired]) = Rejected timeout_message_legacy"
  by (simp add: processAudioWithOpenAI_def new_relay_def step_def library_transition_def
      on_open_legacy_def timeout_legacy_def ws_close_def reject_def)

lemma legacy_watchdog_while_connecting:
  "settled (processAudioWithOpenAI Legacy b rate (replicate (Suc n) TimerExpired)) = Pending"
proof -
  have "run Legacy (replicate (Suc n) TimerExpired) (new_relay b) = (new_relay b)\<lparr>timerArmed := False\<rparr>"
    by (simp add: run_timer_disarmed step_def library_transition_def timeout_legacy_def new_relay_def)
  then show ?thesis by (simp add: processAudioWithOpenAI_def new_relay_def)
qed

end
